theory Spec2Isabelle
  imports Complex_Main
begin

section \<open>Python values used by the checkpointer and the scheduler\<close>

text \<open>
  A Python \<open>dict\<close> keeps its keys in insertion order; it is modelled as an association
  list read with \<open>map_of\<close>. Assigning to a key that is present keeps the key's position,
  assigning to a new key appends it. Metric values are Python floats, modelled as reals
  (the comparisons \<open><\<close> and \<open>>\<close> are the only operations applied to them; NaN is outside
  the model). Iteration counts and frequencies are Python integers.
\<close>

type_synonym ('k, 'v) dict = "('k \<times> 'v) list"

datatype error =
    ValueError
  | KeyError
  | IndexError
  | AttributeError
  | FileNotFoundError
  | FileExistsError
  | NotADirectoryError
  | IsADirectoryError
  | SameFileError
  | StopIteration

definition keys :: "('k, 'v) dict \<Rightarrow> 'k list" where
  "keys d = map fst d"

definition contains :: "('k, 'v) dict \<Rightarrow> 'k \<Rightarrow> bool" where
  "contains d k = (map_of d k \<noteq> None)"

fun setitem :: "('k, 'v) dict \<Rightarrow> 'k \<Rightarrow> 'v \<Rightarrow> ('k, 'v) dict" where
  "setitem [] k v = [(k, v)]"
| "setitem ((k', v') # d) k v =
     (if k' = k then (k, v) # d else (k', v') # setitem d k v)"

fun update :: "('k, 'v) dict \<Rightarrow> ('k, 'v) dict \<Rightarrow> ('k, 'v) dict" where
  "update d [] = d"
| "update d ((k, v) # e) = update (setitem d k v) e"

fun delitem :: "('k, 'v) dict \<Rightarrow> 'k \<Rightarrow> ('k, 'v) dict" where
  "delitem [] k = []"
| "delitem ((k', v') # d) k = (if k' = k then delitem d k else (k', v') # delitem d k)"

text \<open>\<open>metric.replace('/', '_')\<close>\<close>

definition replace :: "string \<Rightarrow> char \<Rightarrow> char \<Rightarrow> string" where
  "replace s old new = map (\<lambda>ch. if ch = old then new else ch) s"

text \<open>\<open>str(n)\<close> for a Python integer, as the f-string \<open>{iteration}\<close> formats it.\<close>

definition digit_char :: "nat \<Rightarrow> char" where
  "digit_char d = ''0123456789'' ! d"

fun str_nat :: "nat \<Rightarrow> string" where
  "str_nat n = (if n < 10 then [digit_char n] else str_nat (n div 10) @ [digit_char (n mod 10)])"

declare str_nat.simps [simp del]

definition str_int :: "int \<Rightarrow> string" where
  "str_int i = (if i < 0 then CHR ''-'' # str_nat (nat (- i)) else str_nat (nat i))"

section \<open>The checkpointer\<close>

subsection \<open>State\<close>

text \<open>
  The model, the optimizer and the learning-rate scheduler are collaborators whose state
  is opaque to the checkpointer: \<open>model.collect_state_dict()\<close>, \<open>optimizer.state_dict()\<close>
  and \<open>lr_scheduler.state_dict()\<close> are blobs. \<open>model.load_state_dict\<close> replaces the
  model's blob; \<open>model._move_to_device()\<close> changes neither the name nor the blob.
\<close>

type_synonym blob = "nat list"

record model =
  name :: string
  module_pool :: blob

record model_params =
  mp_name :: string
  mp_module_pool :: blob

text \<open>The dictionary built by \<open>collect_state_dict\<close>, which \<open>torch.save\<close> writes to a file.\<close>

record state_dict =
  sd_iteration :: int
  sd_model :: model_params
  sd_optimizer :: blob
  sd_lr_scheduler :: "blob option"
  sd_metric_dict :: "(string, real) dict"

text \<open>
  The file system as the checkpointer sees it: the directories that exist and the
  regular files, keyed by their path. A path is identified with its string: neither
  \<open>.\<close> and \<open>..\<close> nor links are resolved.
\<close>

record filesystem =
  dirs :: "string list"
  files :: "(string, state_dict) dict"

text \<open>
  \<open>Meta.config["logging_config"]\<close> with its \<open>checkpointer_config\<close>, and \<open>Meta.log_path\<close>.
\<close>

record config =
  cfg_checkpoint_path :: "string option"
  cfg_log_path :: string
  cfg_evaluation_freq :: int
  cfg_checkpoint_freq :: int
  cfg_counter_unit :: string
  cfg_checkpoint_metric :: "(string, string) dict option"
  cfg_checkpoint_task_metrics :: "(string, string) dict option"
  cfg_checkpoint_runway :: int
  cfg_clear_intermediate_checkpoints :: bool
  cfg_clear_all_checkpoints :: bool

record checkpointer =
  checkpoint_path :: string
  checkpoint_freq :: int
  checkpoint_unit :: string
  checkpoint_metric :: "(string, string) dict option"
  checkpoint_all_metrics :: "(string, string) dict"
  checkpoint_runway :: int
  clear_intermediate_checkpoints :: bool
  clear_all_checkpoints :: bool
  checkpoint_condition_met :: bool
  best_metric_dict :: "(string, real) dict"

subsection \<open>\<open>Checkpointer.is_new_best\<close>\<close>

text \<open>
  One pass of the loop body for the key \<open>metric\<close> of \<open>metric_dict\<close>. The state of the
  loop is the ledger \<open>best_metric_dict\<close> and the set \<open>best_metric\<close>, kept as the list of
  its elements in the order they were added. The three lookups are those of the source:
  \<open>metric not in self.checkpoint_all_metrics\<close> and \<open>metric not in self.best_metric_dict\<close>
  are the \<open>None\<close> cases; \<open>metric_dict[metric]\<close> raises \<open>KeyError\<close> on a missing key.
\<close>

fun is_new_best_body ::
  "(string, string) dict \<Rightarrow> (string, real) dict \<Rightarrow> string \<Rightarrow>
   (string, real) dict \<times> string list \<Rightarrow> error + ((string, real) dict \<times> string list)" where
  "is_new_best_body all_metrics metric_dict metric (bmd, best_metric) =
     (case map_of all_metrics metric of
        None \<Rightarrow> Inr (bmd, best_metric)
      | Some mode \<Rightarrow>
          (case map_of metric_dict metric of
             None \<Rightarrow> Inl KeyError
           | Some v \<Rightarrow>
               (case map_of bmd metric of
                  None \<Rightarrow> Inr (setitem bmd metric v, List.insert metric best_metric)
                | Some b \<Rightarrow>
                    if mode = ''max'' \<and> v > b
                    then Inr (setitem bmd metric v, List.insert metric best_metric)
                    else if mode = ''min'' \<and> v < b
                    then Inr (setitem bmd metric v, List.insert metric best_metric)
                    else Inr (bmd, best_metric))))"

fun is_new_best_loop ::
  "(string, string) dict \<Rightarrow> (string, real) dict \<Rightarrow> string list \<Rightarrow>
   (string, real) dict \<times> string list \<Rightarrow> error + ((string, real) dict \<times> string list)" where
  "is_new_best_loop all_metrics metric_dict [] st = Inr st"
| "is_new_best_loop all_metrics metric_dict (metric # ms) st =
     (case is_new_best_body all_metrics metric_dict metric st of
        Inl e \<Rightarrow> Inl e
      | Inr st' \<Rightarrow> is_new_best_loop all_metrics metric_dict ms st')"

text \<open>
  \<open>is_new_best\<close> returns the updated checkpointer together with the returned set.
\<close>

definition is_new_best ::
  "checkpointer \<Rightarrow> (string, real) dict \<Rightarrow> error + (checkpointer \<times> string list)" where
  "is_new_best self metric_dict =
     (case is_new_best_loop (checkpoint_all_metrics self) metric_dict (keys metric_dict)
             (best_metric_dict self, []) of
        Inl e \<Rightarrow> Inl e
      | Inr (bmd, best_metric) \<Rightarrow> Inr (self\<lparr>best_metric_dict := bmd\<rparr>, best_metric))"

subsection \<open>File system operations\<close>

text \<open>
  The directory a path lies in: what stands before its last \<open>/\<close>.
\<close>

definition parent :: "string \<Rightarrow> string" where
  "parent p = rev (tl (dropWhile (\<lambda>ch. ch \<noteq> CHR ''/'') (rev p)))"

text \<open>\<open>os.path.exists\<close>.\<close>

definition path_exists :: "filesystem \<Rightarrow> string \<Rightarrow> bool" where
  "path_exists fs p = (p \<noteq> [] \<and> (p \<in> set (dirs fs) \<or> contains (files fs) p))"

text \<open>
  \<open>os.makedirs\<close>: the directories a path runs through, which it creates on the way when
  they are missing. It raises for the empty path, for a path that runs through a regular
  file, and for a path that exists. (A missing permission is outside the model.)
\<close>

fun ancestors_from :: "string \<Rightarrow> string \<Rightarrow> string list" where
  "ancestors_from seen [] = []"
| "ancestors_from seen (ch # rest) =
     (if ch = CHR ''/'' \<and> seen \<noteq> [] then [seen] else []) @ ancestors_from (seen @ [ch]) rest"

definition ancestors :: "string \<Rightarrow> string list" where
  "ancestors p = ancestors_from [] p"

definition makedirs :: "filesystem \<Rightarrow> string \<Rightarrow> error + filesystem" where
  "makedirs fs p =
     (if p = [] then Inl FileNotFoundError
      else if \<exists>a \<in> set (ancestors p). contains (files fs) a then Inl NotADirectoryError
      else if path_exists fs p then Inl FileExistsError
      else Inr (fs\<lparr>dirs := dirs fs @ filter (\<lambda>d. d \<notin> set (dirs fs)) (ancestors p @ [p])\<rparr>))"

text \<open>
  Opening a file for writing, as \<open>torch.save\<close> and \<open>shutil.copyfile\<close> do: it raises when
  the path is empty or a directory, and when the directory the path lies in does not exist
  or is a regular file. The current directory and the root, which a path with no \<open>/\<close>
  before its last component lies in, always exist. (A full disk or a missing permission
  is outside the model.)
\<close>

definition write_file :: "filesystem \<Rightarrow> string \<Rightarrow> state_dict \<Rightarrow> error + filesystem" where
  "write_file fs p sd =
     (if p = [] then Inl FileNotFoundError
      else if p \<in> set (dirs fs) then Inl IsADirectoryError
      else if parent p = [] \<or> parent p \<in> set (dirs fs)
      then Inr (fs\<lparr>files := setitem (files fs) p sd\<rparr>)
      else if contains (files fs) (parent p) then Inl NotADirectoryError
      else Inl FileNotFoundError)"

text \<open>\<open>torch.save\<close>, \<open>torch.load\<close>, \<open>shutil.copyfile\<close> and \<open>os.remove\<close>.\<close>

definition torch_save :: "filesystem \<Rightarrow> string \<Rightarrow> state_dict \<Rightarrow> error + filesystem" where
  "torch_save fs p sd = write_file fs p sd"

definition torch_load :: "filesystem \<Rightarrow> string \<Rightarrow> error + state_dict" where
  "torch_load fs p = (case map_of (files fs) p of None \<Rightarrow> Inl FileNotFoundError | Some sd \<Rightarrow> Inr sd)"

definition copyfile :: "filesystem \<Rightarrow> string \<Rightarrow> string \<Rightarrow> error + filesystem" where
  "copyfile fs src dst =
     (if src = dst then Inl SameFileError
      else case map_of (files fs) src of
             None \<Rightarrow> if src \<in> set (dirs fs) then Inl IsADirectoryError else Inl FileNotFoundError
           | Some sd \<Rightarrow> write_file fs dst sd)"

definition os_remove :: "filesystem \<Rightarrow> string \<Rightarrow> error + filesystem" where
  "os_remove fs p =
     (if contains (files fs) p then Inr (fs\<lparr>files := delitem (files fs) p\<rparr>)
      else if p \<in> set (dirs fs) then Inl IsADirectoryError
      else Inl FileNotFoundError)"

subsection \<open>\<open>Checkpointer.__init__\<close>\<close>

text \<open>The loop that checks every mode of \<open>checkpoint_all_metrics\<close>.\<close>

fun check_modes :: "(string, string) dict \<Rightarrow> error + unit" where
  "check_modes [] = Inr ()"
| "check_modes ((metric, mode) # rest) =
     (if mode \<notin> set [''min'', ''max''] then Inl ValueError else check_modes rest)"

text \<open>
  The checkpoint directory: \<open>checkpoint_path\<close> of the configuration, or \<open>Meta.log_path\<close>
  when it is \<open>None\<close>.
\<close>

definition path_of :: "config \<Rightarrow> string" where
  "path_of cfg = (case cfg_checkpoint_path cfg of None \<Rightarrow> cfg_log_path cfg | Some p \<Rightarrow> p)"

text \<open>
  ``Collect all metrics to checkpoint'': \<open>checkpoint_task_metrics\<close> (an empty dictionary
  when \<open>None\<close>), updated with \<open>checkpoint_metric\<close> when that is neither \<open>None\<close> nor empty.
\<close>

definition all_metrics_of :: "config \<Rightarrow> (string, string) dict" where
  "all_metrics_of cfg =
     (let all_metrics = (case cfg_checkpoint_task_metrics cfg of None \<Rightarrow> [] | Some d \<Rightarrow> d)
      in case cfg_checkpoint_metric cfg of
           None \<Rightarrow> all_metrics
         | Some m \<Rightarrow> if m \<noteq> [] then update all_metrics m else all_metrics)"

text \<open>
  The constructor reads the configuration and the file system, and returns the file
  system as it has left it together with the new checkpointer or the exception raised.
  The directory is set up first: when \<open>os.makedirs\<close> raises, nothing else is done.
\<close>

definition init :: "config \<Rightarrow> filesystem \<Rightarrow> (error + checkpointer) \<times> filesystem" where
  "init cfg fs =
     (let path = path_of cfg
      in case (if \<not> path_exists fs path then makedirs fs path else Inr fs) of
           Inl e \<Rightarrow> (Inl e, fs)
         | Inr fs' \<Rightarrow>
             let freq = cfg_evaluation_freq cfg * cfg_checkpoint_freq cfg
             in if freq \<le> 0 then (Inl ValueError, fs')
                else
                  let all_metrics = all_metrics_of cfg
                  in (case check_modes all_metrics of
                        Inl e \<Rightarrow> (Inl e, fs')
                      | Inr _ \<Rightarrow>
                         (Inr \<lparr>checkpoint_path = path,
                               checkpoint_freq = freq,
                               checkpoint_unit = cfg_counter_unit cfg,
                               checkpoint_metric = cfg_checkpoint_metric cfg,
                               checkpoint_all_metrics = all_metrics,
                               checkpoint_runway = cfg_checkpoint_runway cfg,
                               clear_intermediate_checkpoints =
                                 cfg_clear_intermediate_checkpoints cfg,
                               clear_all_checkpoints = cfg_clear_all_checkpoints cfg,
                               checkpoint_condition_met = False,
                               best_metric_dict = []\<rparr>, fs')))"

subsection \<open>\<open>Checkpointer.collect_state_dict\<close> and \<open>Checkpointer.checkpoint\<close>\<close>

text \<open>
  The optimizer is given by its \<open>state_dict()\<close>; the scheduler is \<open>None\<close> or given by its
  \<open>state_dict()\<close>.
\<close>

definition collect_state_dict ::
  "int \<Rightarrow> model \<Rightarrow> blob \<Rightarrow> blob option \<Rightarrow> (string, real) dict \<Rightarrow> state_dict" where
  "collect_state_dict iteration mdl optimizer lr_scheduler metric_dict =
     \<lparr>sd_iteration = iteration,
      sd_model = \<lparr>mp_name = name mdl, mp_module_pool = module_pool mdl\<rparr>,
      sd_optimizer = optimizer,
      sd_lr_scheduler = (case lr_scheduler of None \<Rightarrow> None | Some s \<Rightarrow> Some s),
      sd_metric_dict = metric_dict\<rparr>"

text \<open>The two f-strings that name the files.\<close>

definition checkpoint_file :: "string \<Rightarrow> int \<Rightarrow> string" where
  "checkpoint_file path iteration = path @ ''/checkpoint_'' @ str_int iteration @ ''.pth''"

definition best_model_file :: "string \<Rightarrow> string \<Rightarrow> string" where
  "best_model_file path metric =
     path @ ''/best_model_'' @ replace metric (CHR ''/'') (CHR ''_'') @ ''.pth''"

text \<open>The loop over \<open>new_best_metrics\<close> that copies the snapshot.\<close>

fun copy_best :: "filesystem \<Rightarrow> string \<Rightarrow> string \<Rightarrow> string list \<Rightarrow> error + filesystem" where
  "copy_best fs path src [] = Inr fs"
| "copy_best fs path src (metric # ms) =
     (case copyfile fs src (best_model_file path metric) of
        Inl e \<Rightarrow> Inl e
      | Inr fs' \<Rightarrow> copy_best fs' path src ms)"

text \<open>
  \<open>checkpoint\<close> takes the checkpointer and the file system and returns both as the call
  leaves them, or the exception raised. (The state that a call leaves behind when it
  raises is not part of the result.)
\<close>

definition checkpoint ::
  "checkpointer \<Rightarrow> filesystem \<Rightarrow> int \<Rightarrow> model \<Rightarrow> blob \<Rightarrow> blob option \<Rightarrow>
   (string, real) dict \<Rightarrow> error + (checkpointer \<times> filesystem)" where
  "checkpoint self fs iteration mdl optimizer lr_scheduler metric_dict =
     (if iteration < checkpoint_runway self then Inr (self, fs)
      else
        let self1 = (if \<not> checkpoint_condition_met self \<and> iteration \<ge> checkpoint_runway self
                     then self\<lparr>checkpoint_condition_met := True\<rparr> else self);
            state_dict = collect_state_dict iteration mdl optimizer lr_scheduler metric_dict;
            ckpt = checkpoint_file (checkpoint_path self1) iteration
        in case torch_save fs ckpt state_dict of
             Inl e \<Rightarrow> Inl e
           | Inr fs1 \<Rightarrow>
               if set (keys (checkpoint_all_metrics self1)) \<inter> set (keys metric_dict) \<noteq> {}
               then (case is_new_best self1 metric_dict of
                       Inl e \<Rightarrow> Inl e
                     | Inr (self2, new_best_metrics) \<Rightarrow>
                         (case copy_best fs1 (checkpoint_path self2) ckpt new_best_metrics of
                            Inl e \<Rightarrow> Inl e
                          | Inr fs2 \<Rightarrow> Inr (self2, fs2)))
               else Inr (self1, fs1))"

subsection \<open>\<open>glob.glob\<close>\<close>

text \<open>
  \<open>fnmatch\<close>: in a pattern \<open>*\<close> stands for any characters, \<open>?\<close> for one character, and
  \<open>[seq]\<close> for one character of \<open>seq\<close> (\<open>[!seq]\<close> for one character not in it), where \<open>seq\<close>
  lists characters and ranges \<open>a-z\<close>; a \<open>[\<close> that no \<open>]\<close> closes stands for itself, as every
  other character does.

  The characters between a \<open>[\<close> and the \<open>]\<close> that closes it, and what follows that \<open>]\<close>: a \<open>]\<close>
  right after the \<open>[\<close>, or right after \<open>[!\<close>, does not close.
\<close>

definition bracket :: "string \<Rightarrow> (string \<times> string) option" where
  "bracket cs =
     (let k1 = (if cs \<noteq> [] \<and> hd cs = CHR ''!'' then 1 else 0 :: nat);
          k2 = (if drop k1 cs \<noteq> [] \<and> hd (drop k1 cs) = CHR '']'' then 1 else 0 :: nat);
          body = takeWhile (\<lambda>ch. ch \<noteq> CHR '']'') (drop (k1 + k2) cs)
      in if k1 + k2 + length body < length cs
         then Some (take (k1 + k2 + length body) cs, drop (k1 + k2 + length body + 1) cs)
         else None)"

fun in_items :: "string \<Rightarrow> char \<Rightarrow> bool" where
  "in_items [] ch = False"
| "in_items (lo # rest) ch =
     (case rest of
        dash # hi # rest' \<Rightarrow>
          if dash = CHR ''-''
          then ((of_char lo :: nat) \<le> of_char ch \<and> (of_char ch :: nat) \<le> of_char hi)
               \<or> in_items rest' ch
          else ch = lo \<or> in_items rest ch
      | _ \<Rightarrow> ch = lo \<or> in_items rest ch)"

definition in_seq :: "string \<Rightarrow> char \<Rightarrow> bool" where
  "in_seq stuff ch =
     (case stuff of
        [] \<Rightarrow> False
      | s # items \<Rightarrow> if s = CHR ''!'' then \<not> in_items items ch else in_items stuff ch)"

lemma bracket_shorter: "bracket cs = Some (stuff, rest) \<Longrightarrow> length rest < length cs"
  by (auto simp: bracket_def Let_def split: if_splits)

function fnmatch_from :: "string \<Rightarrow> string \<Rightarrow> bool" where
  "fnmatch_from [] nm = (nm = [])"
| "fnmatch_from (p # pat) nm =
     (if p = CHR ''*''
      then (if fnmatch_from pat nm then True
            else case nm of [] \<Rightarrow> False | _ # nm' \<Rightarrow> fnmatch_from (p # pat) nm')
      else case nm of
             [] \<Rightarrow> False
           | ch # nm' \<Rightarrow>
               if p = CHR ''?'' then fnmatch_from pat nm'
               else if p = CHR ''[''
               then (case bracket pat of
                       None \<Rightarrow> ch = p \<and> fnmatch_from pat nm'
                     | Some (stuff, rest) \<Rightarrow> in_seq stuff ch \<and> fnmatch_from rest nm')
               else ch = p \<and> fnmatch_from pat nm')"
  by pat_completeness auto
termination
  by (relation "measure (\<lambda>(pat, nm). length pat + length nm)")
    (auto dest: bracket_shorter)

declare fnmatch_from.simps [simp del]

definition fnmatch :: "string \<Rightarrow> string \<Rightarrow> bool" where
  "fnmatch nm pat = fnmatch_from pat nm"

text \<open>
  \<open>glob.has_magic\<close>, \<open>os.path.split\<close>, \<open>os.path.join\<close> and \<open>os.path.isdir\<close>. \<open>split\<close> cuts a
  path after its last \<open>/\<close> and strips the slashes that end the head, unless the head
  is made of slashes only.
\<close>

definition has_magic :: "string \<Rightarrow> bool" where
  "has_magic s = (set s \<inter> set ''*?['' \<noteq> {})"

definition rstrip_slashes :: "string \<Rightarrow> string" where
  "rstrip_slashes s = rev (dropWhile (\<lambda>ch. ch = CHR ''/'') (rev s))"

definition path_split :: "string \<Rightarrow> string \<times> string" where
  "path_split p =
     (let tail = rev (takeWhile (\<lambda>ch. ch \<noteq> CHR ''/'') (rev p));
          head = take (length p - length tail) p
      in (if \<exists>ch \<in> set head. ch \<noteq> CHR ''/'' then rstrip_slashes head else head, tail))"

definition join :: "string \<Rightarrow> string \<Rightarrow> string" where
  "join a b =
     (if b \<noteq> [] \<and> hd b = CHR ''/'' then b
      else if a = [] \<or> last a = CHR ''/'' then a @ b
      else a @ ''/'' @ b)"

definition isdir :: "filesystem \<Rightarrow> string \<Rightarrow> bool" where
  "isdir fs p = (p \<in> set (dirs fs))"

text \<open>
  The names of the entries of a directory, regular files and directories alike (the
  directories only with \<open>dironly\<close>); the empty name stands for the current directory.
  Nothing is listed for a name that is not a directory.
\<close>

definition child_name :: "string \<Rightarrow> string \<Rightarrow> string option" where
  "child_name dirname p =
     (let pre = (if dirname = [] then [] else if last dirname = CHR ''/'' then dirname
                 else dirname @ ''/'');
          nm = drop (length pre) p
      in if take (length pre) p = pre \<and> nm \<noteq> [] \<and> CHR ''/'' \<notin> set nm then Some nm else None)"

definition iterdir :: "filesystem \<Rightarrow> string \<Rightarrow> bool \<Rightarrow> string list" where
  "iterdir fs dirname dironly =
     (if dirname \<noteq> [] \<and> \<not> isdir fs dirname then []
      else List.map_filter (child_name dirname)
             (remdups (if dironly then dirs fs else keys (files fs) @ dirs fs)))"

definition ishidden :: "string \<Rightarrow> bool" where
  "ishidden s = (case s of [] \<Rightarrow> False | ch # _ \<Rightarrow> ch = CHR ''.'')"

text \<open>
  \<open>glob._glob1\<close> lists a directory and keeps the names that match a pattern, leaving out
  the names that start with a dot unless the pattern does; \<open>glob._glob0\<close> looks one name
  up.
\<close>

definition glob1 :: "filesystem \<Rightarrow> string \<Rightarrow> string \<Rightarrow> bool \<Rightarrow> string list" where
  "glob1 fs dirname pattern dironly =
     filter (\<lambda>nm. (ishidden pattern \<or> \<not> ishidden nm) \<and> fnmatch nm pattern)
       (iterdir fs dirname dironly)"

definition glob0 :: "filesystem \<Rightarrow> string \<Rightarrow> string \<Rightarrow> bool \<Rightarrow> string list" where
  "glob0 fs dirname basename dironly =
     (if basename = [] then (if isdir fs dirname then [basename] else [])
      else if path_exists fs (join dirname basename) then [basename] else [])"

lemma rstrip_slashes_append:
  "rstrip_slashes s @ rev (takeWhile (\<lambda>ch. ch = CHR ''/'') (rev s)) = s"
proof -
  have "rstrip_slashes s @ rev (takeWhile (\<lambda>ch. ch = CHR ''/'') (rev s))
      = rev (takeWhile (\<lambda>ch. ch = CHR ''/'') (rev s) @ dropWhile (\<lambda>ch. ch = CHR ''/'') (rev s))"
    unfolding rstrip_slashes_def by (simp only: rev_append)
  also have "\<dots> = s"
    by (simp only: takeWhile_dropWhile_id rev_rev_ident)
  finally show ?thesis .
qed

lemma take_rstrip: "\<exists>r. rstrip_slashes (take k p) @ r = p"
proof -
  have "(rstrip_slashes (take k p) @ rev (takeWhile (\<lambda>ch. ch = CHR ''/'') (rev (take k p))))
      @ drop k p = p"
    unfolding rstrip_slashes_append by (rule append_take_drop_id)
  then have "rstrip_slashes (take k p)
      @ (rev (takeWhile (\<lambda>ch. ch = CHR ''/'') (rev (take k p))) @ drop k p) = p"
    unfolding append_assoc .
  then show ?thesis ..
qed

lemma path_split_prefix: "\<exists>r. fst (path_split p) @ r = p"
proof -
  let ?k = "length p - length (rev (takeWhile (\<lambda>ch. ch \<noteq> CHR ''/'') (rev p)))"
  have "fst (path_split p) = take ?k p \<or> fst (path_split p) = rstrip_slashes (take ?k p)"
    unfolding path_split_def Let_def fst_conv by (rule if_split [THEN iffD2]) blast
  moreover have "\<exists>r. take ?k p @ r = p"
    using append_take_drop_id by blast
  ultimately show ?thesis
    using take_rstrip [of ?k p] by metis
qed

lemma path_split_shorter:
  "fst (path_split p) \<noteq> p \<Longrightarrow> length (fst (path_split p)) < length p"
proof -
  assume n: "fst (path_split p) \<noteq> p"
  obtain r where r: "fst (path_split p) @ r = p"
    using path_split_prefix by blast
  with n have "r \<noteq> []"
    by auto
  moreover from r have "length p = length (fst (path_split p)) + length r"
    using length_append [of "fst (path_split p)" r] by simp
  ultimately show ?thesis
    by simp
qed

text \<open>
  \<open>glob._iglob\<close>: a path without a pattern character is looked up; otherwise the
  directory part is itself searched when it holds a pattern character, and the last
  part is matched, or looked up, in each directory found.
\<close>

function iglob :: "filesystem \<Rightarrow> string \<Rightarrow> bool \<Rightarrow> string list" where
  "iglob fs pathname dironly =
     (let dirname = fst (path_split pathname);
          basename = snd (path_split pathname)
      in if \<not> has_magic pathname
         then (if basename \<noteq> []
               then (if path_exists fs pathname then [pathname] else [])
               else (if isdir fs dirname then [pathname] else []))
         else if dirname = [] then glob1 fs dirname basename dironly
         else
           let dirnames = (if dirname \<noteq> pathname \<and> has_magic dirname
                           then iglob fs dirname True else [dirname])
           in concat (map (\<lambda>d. map (join d)
                                 ((if has_magic basename then glob1 else glob0)
                                    fs d basename dironly))
                        dirnames))"
  by pat_completeness auto
termination
  by (relation "measure (\<lambda>(fs, pathname, dironly). length pathname)")
    (auto simp: path_split_shorter)

declare iglob.simps [simp del]

definition glob :: "filesystem \<Rightarrow> string \<Rightarrow> string list" where
  "glob fs pathname = iglob fs pathname False"

subsection \<open>\<open>Checkpointer.clear\<close>\<close>

text \<open>
  The loop \<open>for file in file_list: os.remove(file)\<close>, and \<open>clear\<close>, which returns the file
  system as it leaves it, or the exception raised.
\<close>

fun remove_all :: "filesystem \<Rightarrow> string list \<Rightarrow> error + filesystem" where
  "remove_all fs [] = Inr fs"
| "remove_all fs (file # file_list) =
     (case os_remove fs file of Inl e \<Rightarrow> Inl e | Inr fs' \<Rightarrow> remove_all fs' file_list)"

definition clear :: "checkpointer \<Rightarrow> filesystem \<Rightarrow> error + filesystem" where
  "clear self fs =
     (if clear_all_checkpoints self
      then remove_all fs (glob fs (checkpoint_path self @ ''/*.pth''))
      else if clear_intermediate_checkpoints self
      then remove_all fs (glob fs (checkpoint_path self @ ''/checkpoint_*.pth''))
      else Inr fs)"

subsection \<open>\<open>Checkpointer.load_best_model\<close>\<close>

definition load_best_model :: "checkpointer \<Rightarrow> filesystem \<Rightarrow> model \<Rightarrow> error + model" where
  "load_best_model self fs mdl =
     (case checkpoint_metric self of
        None \<Rightarrow> Inl AttributeError
      | Some cm \<Rightarrow>
          (case keys cm of
             [] \<Rightarrow> Inl IndexError
           | metric # _ \<Rightarrow>
               if \<not> contains (best_metric_dict self) metric then Inr mdl
               else
                 (case torch_load fs (best_model_file (checkpoint_path self) metric) of
                    Inl e \<Rightarrow> Inl e
                  | Inr ckpt \<Rightarrow>
                      Inr (mdl\<lparr>name := mp_name (sd_model ckpt),
                               module_pool := mp_module_pool (sd_model ckpt)\<rparr>))))"

section \<open>The sequential scheduler\<close>

text \<open>
  A dataloader as \<open>get_batches\<close> uses it: its four attributes, \<open>len(dataloader)\<close> and the
  batches \<open>(X_dict, Y_dict)\<close> that \<open>iter(dataloader)\<close> yields, in order. The declared
  length and the number of batches are separate fields, as they are separate calls.
\<close>

record ('x, 'y, 't) dataloader =
  uid :: string
  task_to_label_dict :: 't
  data_name :: string
  split :: string
  len :: nat
  batches :: "((string, 'x) dict \<times> 'y) list"

text \<open>
  A generator yields its items one by one and then ends, or raises: the result is the
  list of the items yielded and the exception that ended the generator, if any.

  The loop \<open>for batch in range(batch_count)\<close>, on the iterator \<open>data_loader\<close> (the batches
  not yet taken): \<open>next\<close> raises on an exhausted iterator, \<open>X_dict[uid_name]\<close> on a
  missing key.
\<close>

fun get_batches_inner ::
  "'t \<Rightarrow> string \<Rightarrow> nat \<Rightarrow> ((string, 'x) dict \<times> 'y) list \<Rightarrow> string \<Rightarrow> string \<Rightarrow>
   ('x \<times> (string, 'x) dict \<times> 'y \<times> 't \<times> string \<times> string) list \<times> error option" where
  "get_batches_inner ttl dn 0 data_loader sp uid_name = ([], None)"
| "get_batches_inner ttl dn (Suc n) [] sp uid_name = ([], Some StopIteration)"
| "get_batches_inner ttl dn (Suc n) ((X_dict, Y_dict) # data_loader) sp uid_name =
     (case map_of X_dict uid_name of
        None \<Rightarrow> ([], Some KeyError)
      | Some u \<Rightarrow>
          (case get_batches_inner ttl dn n data_loader sp uid_name of
             (out, r) \<Rightarrow> ((u, X_dict, Y_dict, ttl, dn, sp) # out, r)))"

text \<open>The loop over the zipped lists.\<close>

fun get_batches_outer ::
  "('t \<times> string \<times> nat \<times> ((string, 'x) dict \<times> 'y) list \<times> string \<times> string) list \<Rightarrow>
   ('x \<times> (string, 'x) dict \<times> 'y \<times> 't \<times> string \<times> string) list \<times> error option" where
  "get_batches_outer [] = ([], None)"
| "get_batches_outer ((ttl, dn, batch_count, data_loader, sp, uid_name) # rest) =
     (case get_batches_inner ttl dn batch_count data_loader sp uid_name of
        (out, Some e) \<Rightarrow> (out, Some e)
      | (out, None) \<Rightarrow>
          (case get_batches_outer rest of (out', r) \<Rightarrow> (out @ out', r)))"

definition get_batches ::
  "('x, 'y, 't) dataloader list \<Rightarrow>
   ('x \<times> (string, 'x) dict \<times> 'y \<times> 't \<times> string \<times> string) list \<times> error option" where
  "get_batches dataloaders =
     (let task_to_label_dicts = map task_to_label_dict dataloaders;
          uid_names = map uid dataloaders;
          data_names = map data_name dataloaders;
          batch_counts = map len dataloaders;
          data_loaders = map batches dataloaders;
          splits = map split dataloaders
      in get_batches_outer
           (zip task_to_label_dicts (zip data_names (zip batch_counts
              (zip data_loaders (zip splits uid_names))))))"

section \<open>Notions used to state the properties\<close>

text \<open>
  The condition under which a metric of \<open>metric_dict\<close> that is tracked is a new best: it
  has no entry in the ledger \<open>bmd\<close>, or its mode is \<open>max\<close> and its value is strictly greater
  than the entry, or its mode is \<open>min\<close> and its value is strictly less than the entry.
\<close>

definition first_or_better ::
  "(string, string) dict \<Rightarrow> (string, real) dict \<Rightarrow> (string, real) dict \<Rightarrow> string \<Rightarrow> bool" where
  "first_or_better all_metrics bmd metric_dict m =
     (map_of bmd m = None \<or>
      (\<exists>v b. map_of metric_dict m = Some v \<and> map_of bmd m = Some b \<and>
         (map_of all_metrics m = Some ''max'' \<and> v > b \<or>
          map_of all_metrics m = Some ''min'' \<and> v < b)))"

text \<open>Successive calls of \<open>is_new_best\<close>, with the set each call returns.\<close>

fun is_new_best_calls ::
  "checkpointer \<Rightarrow> (string, real) dict list \<Rightarrow> error + (checkpointer \<times> string list list)" where
  "is_new_best_calls self [] = Inr (self, [])"
| "is_new_best_calls self (metric_dict # rest) =
     (case is_new_best self metric_dict of
        Inl e \<Rightarrow> Inl e
      | Inr (self', best_metric) \<Rightarrow>
          (case is_new_best_calls self' rest of
             Inl e \<Rightarrow> Inl e
           | Inr (self'', bests) \<Rightarrow> Inr (self'', best_metric # bests)))"

text \<open>
  The components of a tuple that \<open>get_batches\<close> yields: the batch it was made from, the
  attributes of the dataloader it carries, and its first component; and the entry of a
  batch's \<open>X_dict\<close> under a \<open>uid\<close> key.
\<close>

fun yielded_batch ::
  "'x \<times> (string, 'x) dict \<times> 'y \<times> 't \<times> string \<times> string \<Rightarrow> (string, 'x) dict \<times> 'y" where
  "yielded_batch (u, X_dict, Y_dict, ttl, dn, sp) = (X_dict, Y_dict)"

fun yielded_meta ::
  "'x \<times> (string, 'x) dict \<times> 'y \<times> 't \<times> string \<times> string \<Rightarrow> 't \<times> string \<times> string" where
  "yielded_meta (u, X_dict, Y_dict, ttl, dn, sp) = (ttl, dn, sp)"

fun yielded_uids ::
  "'x \<times> (string, 'x) dict \<times> 'y \<times> 't \<times> string \<times> string \<Rightarrow> 'x" where
  "yielded_uids (u, X_dict, Y_dict, ttl, dn, sp) = u"

definition uids_of :: "string \<Rightarrow> (string, 'x) dict \<times> 'y \<Rightarrow> 'x option" where
  "uids_of uid_name b = map_of (fst b) uid_name"

text \<open>The arguments of one call of \<open>checkpoint\<close>, and a sequence of calls.\<close>

record call =
  call_iteration :: int
  call_model :: model
  call_optimizer :: blob
  call_lr_scheduler :: "blob option"
  call_metric_dict :: "(string, real) dict"

fun checkpoint_calls ::
  "checkpointer \<Rightarrow> filesystem \<Rightarrow> call list \<Rightarrow> error + (checkpointer \<times> filesystem)" where
  "checkpoint_calls self fs [] = Inr (self, fs)"
| "checkpoint_calls self fs (c # calls) =
     (case checkpoint self fs (call_iteration c) (call_model c) (call_optimizer c)
             (call_lr_scheduler c) (call_metric_dict c) of
        Inl e \<Rightarrow> Inl e
      | Inr (self', fs') \<Rightarrow> checkpoint_calls self' fs' calls)"

text \<open>
  The values passed for the metric \<open>m\<close> in a sequence of calls, in order: in all calls,
  and in the calls whose iteration has reached the runway.
\<close>

definition passed_values :: "string \<Rightarrow> call list \<Rightarrow> real list" where
  "passed_values m calls =
     concat (map (\<lambda>c. case map_of (call_metric_dict c) m of None \<Rightarrow> [] | Some v \<Rightarrow> [v]) calls)"

definition counted_values :: "int \<Rightarrow> string \<Rightarrow> call list \<Rightarrow> real list" where
  "counted_values runway m calls =
     passed_values m (filter (\<lambda>c. runway \<le> call_iteration c) calls)"

text \<open>
  The ledger entry of a metric of mode \<open>mode\<close> (\<open>None\<close> when it is not tracked) once the
  value \<open>v\<close> has been seen.
\<close>

definition ledger_after :: "string option \<Rightarrow> real option \<Rightarrow> real \<Rightarrow> real option" where
  "ledger_after mode entry v =
     (case mode of
        None \<Rightarrow> entry
      | Some mo \<Rightarrow>
          (case entry of
             None \<Rightarrow> Some v
           | Some b \<Rightarrow> if mo = ''max'' \<and> v > b \<or> mo = ''min'' \<and> v < b then Some v else Some b))"

text \<open>
  A directory in which snapshots can be written: it exists, and no directory stands
  where an entry \<open><stem>.pth\<close> of it would be written.
\<close>

definition snapshot_dir :: "filesystem \<Rightarrow> string \<Rightarrow> bool" where
  "snapshot_dir fs dir =
     (dir \<in> set (dirs fs) \<and>
      (\<forall>stem. CHR ''/'' \<notin> set stem \<longrightarrow> dir @ ''/'' @ stem @ ''.pth'' \<notin> set (dirs fs)))"

text \<open>
  The entries of the directory \<open>dir\<close> named \<open><stem>.pth\<close> that do not start with a dot,
  and those named \<open>checkpoint_<stem>.pth\<close>.
\<close>

definition pth_entry :: "string \<Rightarrow> string \<Rightarrow> bool" where
  "pth_entry dir p =
     (\<exists>stem. p = dir @ ''/'' @ stem @ ''.pth'' \<and> CHR ''/'' \<notin> set stem \<and>
        \<not> ishidden (stem @ ''.pth''))"

definition checkpoint_entry :: "string \<Rightarrow> string \<Rightarrow> bool" where
  "checkpoint_entry dir p =
     (\<exists>stem. p = dir @ ''/checkpoint_'' @ stem @ ''.pth'' \<and> CHR ''/'' \<notin> set stem)"

section \<open>Concrete runs\<close>

text \<open>
  A configuration that tracks the metric \<open>acc\<close> with mode \<open>max\<close> and starts checkpointing at
  iteration 5, an empty file system, the checkpointer the constructor builds from them
  and the file system it leaves, and a model.
\<close>

definition acc_config :: config where
  "acc_config =
     \<lparr>cfg_checkpoint_path = Some ''ckpt'',
      cfg_log_path = ''logs'',
      cfg_evaluation_freq = 1,
      cfg_checkpoint_freq = 1,
      cfg_counter_unit = ''epoch'',
      cfg_checkpoint_metric = Some [(''acc'', ''max'')],
      cfg_checkpoint_task_metrics = None,
      cfg_checkpoint_runway = 5,
      cfg_clear_intermediate_checkpoints = False,
      cfg_clear_all_checkpoints = False\<rparr>"

definition empty_fs :: filesystem where
  "empty_fs = \<lparr>dirs = [], files = []\<rparr>"

definition acc_checkpointer :: checkpointer where
  "acc_checkpointer =
     \<lparr>checkpoint_path = ''ckpt'',
      checkpoint_freq = 1,
      checkpoint_unit = ''epoch'',
      checkpoint_metric = Some [(''acc'', ''max'')],
      checkpoint_all_metrics = [(''acc'', ''max'')],
      checkpoint_runway = 5,
      clear_intermediate_checkpoints = False,
      clear_all_checkpoints = False,
      checkpoint_condition_met = False,
      best_metric_dict = []\<rparr>"

definition fresh_fs :: filesystem where
  "fresh_fs = \<lparr>dirs = [''ckpt''], files = []\<rparr>"

definition some_model :: model where
  "some_model = \<lparr>name = ''bert'', module_pool = [1, 2, 3]\<rparr>"

text \<open>
  A file system on which \<open>f\<close> is a regular file.
\<close>

definition file_fs :: filesystem where
  "file_fs =
     \<lparr>dirs = [],
      files = [(''f'', \<lparr>sd_iteration = 0, sd_model = \<lparr>mp_name = [], mp_module_pool = []\<rparr>,
                        sd_optimizer = [], sd_lr_scheduler = None, sd_metric_dict = []\<rparr>)]\<rparr>"

text \<open>
  The checkpoint directory with a best-model copy for \<open>acc\<close> from iteration 5, and the
  checkpointer whose ledger holds that best.
\<close>

definition stale_fs :: filesystem where
  "stale_fs =
     \<lparr>dirs = [''ckpt''],
      files = [(''ckpt/checkpoint_5.pth'',
                \<lparr>sd_iteration = 5, sd_model = \<lparr>mp_name = ''bert'', mp_module_pool = [1, 2, 3]\<rparr>,
                 sd_optimizer = [4], sd_lr_scheduler = None, sd_metric_dict = [(''acc'', 0.5)]\<rparr>),
               (''ckpt/best_model_acc.pth'',
                \<lparr>sd_iteration = 5, sd_model = \<lparr>mp_name = ''bert'', mp_module_pool = [1, 2, 3]\<rparr>,
                 sd_optimizer = [4], sd_lr_scheduler = None, sd_metric_dict = [(''acc'', 0.5)]\<rparr>)]\<rparr>"

definition stale_checkpointer :: checkpointer where
  "stale_checkpointer =
     acc_checkpointer\<lparr>checkpoint_condition_met := True, best_metric_dict := [(''acc'', 0.5)]\<rparr>"

text \<open>A checkpointer that tracks a metric whose name has slashes.\<close>

definition task_checkpointer :: checkpointer where
  "task_checkpointer =
     acc_checkpointer\<lparr>checkpoint_metric := Some [(''task/dev/acc'', ''max'')],
       checkpoint_all_metrics := [(''task/dev/acc'', ''max'')]\<rparr>"

text \<open>Two dataloaders, of three and of two batches.\<close>

definition source_a :: "(nat list, nat list, (string, string) dict) dataloader" where
  "source_a =
     \<lparr>uid = ''guid'', task_to_label_dict = [(''rte'', ''labels'')], data_name = ''RTE'',
      split = ''train'', len = 3,
      batches = [([(''guid'', [0, 1]), (''tokens'', [7, 8])], [1, 0]),
                 ([(''guid'', [2, 3]), (''tokens'', [9, 9])], [0, 0]),
                 ([(''guid'', [4]), (''tokens'', [5])], [1])]\<rparr>"

definition source_b :: "(nat list, nat list, (string, string) dict) dataloader" where
  "source_b =
     \<lparr>uid = ''idx'', task_to_label_dict = [(''cb'', ''label'')], data_name = ''CB'',
      split = ''valid'', len = 2,
      batches = [([(''idx'', [10, 11])], [2, 2]),
                 ([(''idx'', [12])], [0])]\<rparr>"

text \<open>
  Three calls, the first below the runway of \<open>acc_checkpointer\<close>, and what they leave
  when they start from the file system the constructor leaves.
\<close>

definition runway_calls :: "call list" where
  "runway_calls =
     [\<lparr>call_iteration = 4, call_model = some_model, call_optimizer = [7],
       call_lr_scheduler = None, call_metric_dict = [(''acc'', 0.9)]\<rparr>,
      \<lparr>call_iteration = 5, call_model = some_model, call_optimizer = [8],
       call_lr_scheduler = None, call_metric_dict = [(''acc'', 0.5)]\<rparr>,
      \<lparr>call_iteration = 6, call_model = some_model, call_optimizer = [9],
       call_lr_scheduler = None, call_metric_dict = [(''acc'', 0.7)]\<rparr>]"

definition runway_calls_result :: "checkpointer \<times> filesystem" where
  "runway_calls_result =
     (acc_checkpointer\<lparr>checkpoint_condition_met := True, best_metric_dict := [(''acc'', 0.7)]\<rparr>,
      \<lparr>dirs = [''ckpt''],
       files = [(''ckpt/checkpoint_5.pth'',
                 \<lparr>sd_iteration = 5,
                  sd_model = \<lparr>mp_name = ''bert'', mp_module_pool = [1, 2, 3]\<rparr>,
                  sd_optimizer = [8], sd_lr_scheduler = None,
                  sd_metric_dict = [(''acc'', 0.5)]\<rparr>),
                (''ckpt/best_model_acc.pth'',
                 \<lparr>sd_iteration = 6,
                  sd_model = \<lparr>mp_name = ''bert'', mp_module_pool = [1, 2, 3]\<rparr>,
                  sd_optimizer = [9], sd_lr_scheduler = None,
                  sd_metric_dict = [(''acc'', 0.7)]\<rparr>),
                (''ckpt/checkpoint_6.pth'',
                 \<lparr>sd_iteration = 6,
                  sd_model = \<lparr>mp_name = ''bert'', mp_module_pool = [1, 2, 3]\<rparr>,
                  sd_optimizer = [9], sd_lr_scheduler = None,
                  sd_metric_dict = [(''acc'', 0.7)]\<rparr>)]\<rparr>)"

text \<open>
  A configuration whose checkpoint directory has a bracket in its name and that asks
  \<open>clear\<close> to remove every checkpoint, the checkpointer the constructor builds from it,
  and the file system it leaves when it starts where another run has left the directory
  \<open>ckpt\<close> with its files.
\<close>

definition bracket_config :: config where
  "bracket_config =
     acc_config\<lparr>cfg_checkpoint_path := Some ''ck[p]t'', cfg_clear_all_checkpoints := True\<rparr>"

definition bracket_checkpointer :: checkpointer where
  "bracket_checkpointer =
     acc_checkpointer\<lparr>checkpoint_path := ''ck[p]t'', clear_all_checkpoints := True\<rparr>"

definition bracket_fs :: filesystem where
  "bracket_fs = stale_fs\<lparr>dirs := [''ckpt'', ''ck[p]t'']\<rparr>"

text \<open>
  A checkpoint directory that holds a snapshot and a directory named \<open>sub.pth\<close>.
\<close>

definition subdir_fs :: filesystem where
  "subdir_fs =
     \<lparr>dirs = [''ckpt'', ''ckpt/sub.pth''],
      files = [(''ckpt/checkpoint_5.pth'',
                \<lparr>sd_iteration = 5, sd_model = \<lparr>mp_name = ''bert'', mp_module_pool = [1, 2, 3]\<rparr>,
                 sd_optimizer = [4], sd_lr_scheduler = None, sd_metric_dict = [(''acc'', 0.5)]\<rparr>)]\<rparr>"

section \<open>Properties of the checkpointer\<close>

subsection \<open>Construction\<close>

lemma init_acc_config: "init acc_config empty_fs = (Inr acc_checkpointer, fresh_fs)"
  by (simp add: init_def acc_config_def empty_fs_def fresh_fs_def acc_checkpointer_def
      path_exists_def makedirs_def ancestors_def contains_def path_of_def all_metrics_of_def
      Let_def)

lemma check_modes_invalid:
  "(\<exists>(metric, mode) \<in> set d. mode \<noteq> ''min'' \<and> mode \<noteq> ''max'') \<Longrightarrow> check_modes d = Inl ValueError"
  by (induction d rule: check_modes.induct) auto

lemma check_modes_valid:
  "(\<forall>(metric, mode) \<in> set d. mode = ''min'' \<or> mode = ''max'') \<Longrightarrow> check_modes d = Inr ()"
  by (induction d rule: check_modes.induct) auto

lemma makedirs_creates: "makedirs fs p = Inr fs' \<Longrightarrow> p \<in> set (dirs fs') \<and> files fs' = files fs"
  by (auto simp: makedirs_def split: if_splits)

lemma makedirs_raises:
  assumes "makedirs fs p = Inl e" and "\<not> path_exists fs p"
  shows "e \<noteq> ValueError \<and> (p = [] \<or> (\<exists>a \<in> set (ancestors p). contains (files fs) a))"
  using assms by (auto simp: makedirs_def split: if_splits)

lemma init_invalid:
  assumes "cfg_evaluation_freq cfg * cfg_checkpoint_freq cfg \<le> 0 \<or>
     (\<exists>(metric, mode) \<in> set (all_metrics_of cfg). mode \<noteq> ''min'' \<and> mode \<noteq> ''max'')"
  shows "init cfg fs =
     (case (if \<not> path_exists fs (path_of cfg) then makedirs fs (path_of cfg) else Inr fs) of
        Inl e \<Rightarrow> (Inl e, fs)
      | Inr fs' \<Rightarrow> (Inl ValueError, fs'))"
proof (cases "cfg_evaluation_freq cfg * cfg_checkpoint_freq cfg \<le> 0")
  case True
  then show ?thesis
    by (simp add: init_def Let_def split: sum.splits)
next
  case False
  with assms have "check_modes (all_metrics_of cfg) = Inl ValueError"
    by (simp add: check_modes_invalid)
  with False show ?thesis
    by (simp add: init_def Let_def split: sum.splits)
qed

text \<open>
  C4, as amended. Let the effective frequency \<open>evaluation_freq * checkpoint_freq\<close> of a
  configuration be not positive, or let it track a metric with a mode other than \<open>min\<close>
  and \<open>max\<close>. When the checkpoint directory exists, the constructor raises \<open>ValueError\<close>
  and leaves the file system as it is. When it does not exist and can be created, the
  constructor creates it first and then raises \<open>ValueError\<close>: the directory exists when the
  exception is raised. When it cannot be created (the path is empty, or runs through a
  regular file), the constructor raises the exception of \<open>os.makedirs\<close> instead, before
  any validation.
\<close>

theorem init_invalid_configuration:
  assumes "cfg_evaluation_freq cfg * cfg_checkpoint_freq cfg \<le> 0 \<or>
     (\<exists>(metric, mode) \<in> set (all_metrics_of cfg). mode \<noteq> ''min'' \<and> mode \<noteq> ''max'')"
  shows "(path_exists fs (path_of cfg) \<longrightarrow> init cfg fs = (Inl ValueError, fs)) \<and>
     (\<not> path_exists fs (path_of cfg) \<longrightarrow>
        (\<forall>fs'. makedirs fs (path_of cfg) = Inr fs' \<longrightarrow>
           init cfg fs = (Inl ValueError, fs') \<and> path_of cfg \<in> set (dirs fs') \<and>
           files fs' = files fs) \<and>
        (\<forall>e. makedirs fs (path_of cfg) = Inl e \<longrightarrow>
           init cfg fs = (Inl e, fs) \<and> e \<noteq> ValueError \<and>
           (path_of cfg = [] \<or> (\<exists>a \<in> set (ancestors (path_of cfg)). contains (files fs) a))))"
proof (cases "path_exists fs (path_of cfg)")
  case True
  with init_invalid [OF assms, of fs] show ?thesis
    by simp
next
  case False
  with init_invalid [OF assms, of fs]
  have i: "init cfg fs =
      (case makedirs fs (path_of cfg) of Inl e \<Rightarrow> (Inl e, fs) | Inr fs' \<Rightarrow> (Inl ValueError, fs'))"
    by simp
  show ?thesis
  proof (cases "makedirs fs (path_of cfg)")
    case (Inl e)
    with makedirs_raises [of fs "path_of cfg" e] False
    have "e \<noteq> ValueError"
      and "path_of cfg = [] \<or> (\<exists>a \<in> set (ancestors (path_of cfg)). contains (files fs) a)"
      by simp_all
    with i Inl False show ?thesis
      by simp
  next
    case (Inr fs')
    with makedirs_creates [of fs "path_of cfg" fs'] i False show ?thesis
      by simp
  qed
qed

theorem init_invalid_configuration_witness:
  "cfg_evaluation_freq (acc_config\<lparr>cfg_checkpoint_freq := 0\<rparr>)
     * cfg_checkpoint_freq (acc_config\<lparr>cfg_checkpoint_freq := 0\<rparr>) \<le> 0 \<and>
   \<not> path_exists empty_fs (path_of (acc_config\<lparr>cfg_checkpoint_freq := 0\<rparr>)) \<and>
   makedirs empty_fs (path_of (acc_config\<lparr>cfg_checkpoint_freq := 0\<rparr>)) = Inr fresh_fs \<and>
   init (acc_config\<lparr>cfg_checkpoint_freq := 0\<rparr>) empty_fs = (Inl ValueError, fresh_fs) \<and>
   (''loss'', ''avg'') \<in> set (all_metrics_of
       (acc_config\<lparr>cfg_checkpoint_task_metrics := Some [(''loss'', ''avg'')]\<rparr>)) \<and>
   path_exists fresh_fs
     (path_of (acc_config\<lparr>cfg_checkpoint_task_metrics := Some [(''loss'', ''avg'')]\<rparr>)) \<and>
   init (acc_config\<lparr>cfg_checkpoint_task_metrics := Some [(''loss'', ''avg'')]\<rparr>) fresh_fs
     = (Inl ValueError, fresh_fs) \<and>
   makedirs empty_fs (path_of (acc_config\<lparr>cfg_checkpoint_freq := 0, cfg_checkpoint_path := Some []\<rparr>))
     = Inl FileNotFoundError \<and>
   init (acc_config\<lparr>cfg_checkpoint_freq := 0, cfg_checkpoint_path := Some []\<rparr>) empty_fs
     = (Inl FileNotFoundError, empty_fs) \<and>
   makedirs file_fs
       (path_of (acc_config\<lparr>cfg_checkpoint_freq := 0, cfg_checkpoint_path := Some ''f/ckpt''\<rparr>))
     = Inl NotADirectoryError \<and>
   init (acc_config\<lparr>cfg_checkpoint_freq := 0, cfg_checkpoint_path := Some ''f/ckpt''\<rparr>) file_fs
     = (Inl NotADirectoryError, file_fs)"
proof -
  have m1: "makedirs empty_fs (path_of (acc_config\<lparr>cfg_checkpoint_freq := 0\<rparr>)) = Inr fresh_fs"
    and m2: "makedirs empty_fs
        (path_of (acc_config\<lparr>cfg_checkpoint_freq := 0, cfg_checkpoint_path := Some []\<rparr>))
      = Inl FileNotFoundError"
    and m3: "makedirs file_fs
        (path_of (acc_config\<lparr>cfg_checkpoint_freq := 0, cfg_checkpoint_path := Some ''f/ckpt''\<rparr>))
      = Inl NotADirectoryError"
    by (simp_all add: makedirs_def ancestors_def path_exists_def path_of_def acc_config_def
        empty_fs_def fresh_fs_def file_fs_def contains_def)
  have e1: "\<not> path_exists empty_fs (path_of (acc_config\<lparr>cfg_checkpoint_freq := 0\<rparr>))"
    and e2: "\<not> path_exists empty_fs
        (path_of (acc_config\<lparr>cfg_checkpoint_freq := 0, cfg_checkpoint_path := Some []\<rparr>))"
    and e3: "\<not> path_exists file_fs
        (path_of (acc_config\<lparr>cfg_checkpoint_freq := 0, cfg_checkpoint_path := Some ''f/ckpt''\<rparr>))"
    and e4: "path_exists fresh_fs
        (path_of (acc_config\<lparr>cfg_checkpoint_task_metrics := Some [(''loss'', ''avg'')]\<rparr>))"
    by (simp_all add: path_exists_def path_of_def acc_config_def empty_fs_def fresh_fs_def
        file_fs_def contains_def)
  have f: "cfg_evaluation_freq (acc_config\<lparr>cfg_checkpoint_freq := 0\<rparr>)
      * cfg_checkpoint_freq (acc_config\<lparr>cfg_checkpoint_freq := 0\<rparr>) \<le> 0"
    and f2: "cfg_evaluation_freq (acc_config\<lparr>cfg_checkpoint_freq := 0, cfg_checkpoint_path := Some []\<rparr>)
      * cfg_checkpoint_freq (acc_config\<lparr>cfg_checkpoint_freq := 0, cfg_checkpoint_path := Some []\<rparr>)
      \<le> 0"
    and f3: "cfg_evaluation_freq
        (acc_config\<lparr>cfg_checkpoint_freq := 0, cfg_checkpoint_path := Some ''f/ckpt''\<rparr>)
      * cfg_checkpoint_freq
        (acc_config\<lparr>cfg_checkpoint_freq := 0, cfg_checkpoint_path := Some ''f/ckpt''\<rparr>) \<le> 0"
    by simp_all
  have a: "(''loss'', ''avg'') \<in> set (all_metrics_of
       (acc_config\<lparr>cfg_checkpoint_task_metrics := Some [(''loss'', ''avg'')]\<rparr>))"
    by (simp add: all_metrics_of_def acc_config_def)
  then have a': "\<exists>(metric, mode) \<in> set (all_metrics_of
       (acc_config\<lparr>cfg_checkpoint_task_metrics := Some [(''loss'', ''avg'')]\<rparr>)).
       mode \<noteq> ''min'' \<and> mode \<noteq> ''max''"
    by (intro bexI [of _ "(''loss'', ''avg'')"]) simp_all
  have "init (acc_config\<lparr>cfg_checkpoint_freq := 0\<rparr>) empty_fs = (Inl ValueError, fresh_fs)"
    using init_invalid_configuration [OF disjI1 [OF f], of empty_fs] e1 m1 by blast
  moreover have "init (acc_config\<lparr>cfg_checkpoint_task_metrics := Some [(''loss'', ''avg'')]\<rparr>)
      fresh_fs = (Inl ValueError, fresh_fs)"
    using init_invalid_configuration [OF disjI2 [OF a'], of fresh_fs] e4 by blast
  moreover have "init (acc_config\<lparr>cfg_checkpoint_freq := 0, cfg_checkpoint_path := Some []\<rparr>)
      empty_fs = (Inl FileNotFoundError, empty_fs)"
    using init_invalid_configuration [OF disjI1 [OF f2], of empty_fs] e2 m2 by blast
  moreover have "init (acc_config\<lparr>cfg_checkpoint_freq := 0,
      cfg_checkpoint_path := Some ''f/ckpt''\<rparr>) file_fs = (Inl NotADirectoryError, file_fs)"
    using init_invalid_configuration [OF disjI1 [OF f3], of file_fs] e3 m3 by blast
  ultimately show ?thesis
    using f e1 m1 a e4 m2 m3 by (intro conjI)
qed

text \<open>
  C4, as stated, fails: with \<open>checkpoint_freq = 0\<close>, and with the mode \<open>avg\<close>, on a file
  system without the directory \<open>ckpt\<close>, the constructor raises \<open>ValueError\<close> and leaves the
  directory \<open>ckpt\<close> behind.
\<close>

theorem init_creates_directory_before_validation:
  "fst (init (acc_config\<lparr>cfg_checkpoint_freq := 0\<rparr>) empty_fs) = Inl ValueError \<and>
   path_exists empty_fs ''ckpt'' = False \<and>
   path_exists (snd (init (acc_config\<lparr>cfg_checkpoint_freq := 0\<rparr>) empty_fs)) ''ckpt'' = True \<and>
   fst (init (acc_config\<lparr>cfg_checkpoint_metric := Some [(''acc'', ''avg'')]\<rparr>) empty_fs)
     = Inl ValueError \<and>
   dirs (snd (init (acc_config\<lparr>cfg_checkpoint_metric := Some [(''acc'', ''avg'')]\<rparr>) empty_fs))
     = [''ckpt'']"
  by (simp add: init_def acc_config_def empty_fs_def all_metrics_of_def path_of_def
      path_exists_def makedirs_def ancestors_def contains_def Let_def)

subsection \<open>New bests\<close>

lemma map_of_setitem: "map_of (setitem d k v) = (map_of d)(k \<mapsto> v)"
  by (induction d) (auto simp: fun_eq_iff)

lemma set_keys: "set (keys d) = dom (map_of d)"
  by (simp add: keys_def dom_map_of_conv_image_fst)

lemma is_new_best_body_cases:
  assumes "map_of md m \<noteq> None"
  shows "is_new_best_body al md m (bmd, best) =
     (if map_of al m \<noteq> None \<and> first_or_better al bmd md m
      then Inr (setitem bmd m (the (map_of md m)), List.insert m best)
      else Inr (bmd, best))"
  using assms by (auto simp: first_or_better_def split: option.splits)

declare is_new_best_body.simps [simp del]

lemma is_new_best_loop_result:
  assumes "set ms \<subseteq> dom (map_of md)"
  shows "\<exists>bmd' best'. is_new_best_loop al md ms (bmd, best) = Inr (bmd', best')
     \<and> set best' = set best \<union> {m \<in> set ms. map_of al m \<noteq> None \<and> first_or_better al bmd md m}
     \<and> (\<forall>m. map_of bmd' m = (if m \<in> set ms \<and> map_of al m \<noteq> None \<and> first_or_better al bmd md m
                                then map_of md m else map_of bmd m))"
  using assms
proof (induction ms arbitrary: bmd best)
  case Nil
  then show ?case by simp
next
  case (Cons k ms)
  from Cons.prems have k: "map_of md k \<noteq> None" and ms: "set ms \<subseteq> dom (map_of md)"
    by auto
  show ?case
  proof (cases "map_of al k \<noteq> None \<and> first_or_better al bmd md k")
    case True
    let ?b1 = "setitem bmd k (the (map_of md k))"
    have step: "is_new_best_body al md k (bmd, best) = Inr (?b1, List.insert k best)"
      using True k by (simp add: is_new_best_body_cases)
    have same: "first_or_better al ?b1 md m = (m \<noteq> k \<and> first_or_better al bmd md m)" for m
      using k by (auto simp: first_or_better_def map_of_setitem)
    from Cons.IH [OF ms, of ?b1 "List.insert k best"] obtain bmd' best' where
      r: "is_new_best_loop al md ms (?b1, List.insert k best) = Inr (bmd', best')"
      and s: "set best' = set (List.insert k best) \<union>
                {m \<in> set ms. map_of al m \<noteq> None \<and> first_or_better al ?b1 md m}"
      and l: "\<forall>m. map_of bmd' m =
                (if m \<in> set ms \<and> map_of al m \<noteq> None \<and> first_or_better al ?b1 md m
                 then map_of md m else map_of ?b1 m)"
      by blast
    have "set best' = insert k (set best) \<union>
            {m \<in> set ms. map_of al m \<noteq> None \<and> m \<noteq> k \<and> first_or_better al bmd md m}"
      using s by (simp add: same)
    then have "set best' = set best \<union>
            {m \<in> set (k # ms). map_of al m \<noteq> None \<and> first_or_better al bmd md m}"
      using True by fastforce
    moreover have "map_of bmd' m =
            (if m \<in> set (k # ms) \<and> map_of al m \<noteq> None \<and> first_or_better al bmd md m
             then map_of md m else map_of bmd m)" for m
    proof (cases "m = k")
      case True
      with l k \<open>map_of al k \<noteq> None \<and> first_or_better al bmd md k\<close> show ?thesis
        by (auto simp: same map_of_setitem)
    next
      case False
      with l show ?thesis
        by (auto simp: same map_of_setitem)
    qed
    ultimately show ?thesis
      using step r by simp
  next
    case False
    have step: "is_new_best_body al md k (bmd, best) = Inr (bmd, best)"
      using False k by (auto simp: is_new_best_body_cases)
    from Cons.IH [OF ms, of bmd best] obtain bmd' best' where
      r: "is_new_best_loop al md ms (bmd, best) = Inr (bmd', best')"
      and s: "set best' = set best \<union>
                {m \<in> set ms. map_of al m \<noteq> None \<and> first_or_better al bmd md m}"
      and l: "\<forall>m. map_of bmd' m =
                (if m \<in> set ms \<and> map_of al m \<noteq> None \<and> first_or_better al bmd md m
                 then map_of md m else map_of bmd m)"
      by blast
    have "set best' = set best \<union>
            {m \<in> set (k # ms). map_of al m \<noteq> None \<and> first_or_better al bmd md m}"
      using s False by fastforce
    moreover have "map_of bmd' m =
            (if m \<in> set (k # ms) \<and> map_of al m \<noteq> None \<and> first_or_better al bmd md m
             then map_of md m else map_of bmd m)" for m
    proof (cases "m = k")
      case True
      with l \<open>\<not> (map_of al k \<noteq> None \<and> first_or_better al bmd md k)\<close> show ?thesis
        by auto
    next
      case False
      with l show ?thesis
        by auto
    qed
    ultimately show ?thesis
      using step r by simp
  qed
qed

lemma is_new_best_result:
  "\<exists>bmd best_metric.
     is_new_best self metric_dict = Inr (self\<lparr>best_metric_dict := bmd\<rparr>, best_metric) \<and>
     set best_metric =
       {m \<in> set (keys metric_dict). map_of (checkpoint_all_metrics self) m \<noteq> None \<and>
          first_or_better (checkpoint_all_metrics self) (best_metric_dict self) metric_dict m} \<and>
     (\<forall>m. map_of bmd m =
        (if m \<in> set (keys metric_dict) \<and> map_of (checkpoint_all_metrics self) m \<noteq> None \<and>
            first_or_better (checkpoint_all_metrics self) (best_metric_dict self) metric_dict m
         then map_of metric_dict m else map_of (best_metric_dict self) m))"
proof -
  have "set (keys metric_dict) \<subseteq> dom (map_of metric_dict)"
    by (simp add: set_keys)
  from is_new_best_loop_result [OF this, of "checkpoint_all_metrics self" "best_metric_dict self" "[]"]
  obtain bmd' best' where
    "is_new_best_loop (checkpoint_all_metrics self) metric_dict (keys metric_dict)
       (best_metric_dict self, []) = Inr (bmd', best')"
    "set best' = set [] \<union> {m \<in> set (keys metric_dict). map_of (checkpoint_all_metrics self) m \<noteq> None \<and>
          first_or_better (checkpoint_all_metrics self) (best_metric_dict self) metric_dict m}"
    "\<forall>m. map_of bmd' m =
        (if m \<in> set (keys metric_dict) \<and> map_of (checkpoint_all_metrics self) m \<noteq> None \<and>
            first_or_better (checkpoint_all_metrics self) (best_metric_dict self) metric_dict m
         then map_of metric_dict m else map_of (best_metric_dict self) m)"
    by blast
  then show ?thesis
    by (intro exI [of _ bmd'] exI [of _ best']) (simp add: is_new_best_def)
qed

text \<open>
  C1. \<open>is_new_best\<close> never raises. The set it returns holds exactly the metrics of
  \<open>metric_dict\<close> that are tracked and are first seen or strictly better than their ledger
  entry under their mode; the ledger it leaves holds the new value for each of them and
  is unchanged elsewhere. A tie is not a new best, and no metric outside
  \<open>checkpoint_all_metrics\<close> is returned. For a metric of mode \<open>max\<close> fed 0.5, 0.3, 0.9, 0.9
  and 0.7 from an empty ledger, the first and the third call return it, the others return
  the empty set, and the ledger ends at 0.9.
\<close>

theorem is_new_best_returns_improved:
  "(\<exists>bmd best_metric.
      is_new_best self metric_dict = Inr (self\<lparr>best_metric_dict := bmd\<rparr>, best_metric) \<and>
      set best_metric =
        {m \<in> set (keys metric_dict) \<inter> set (keys (checkpoint_all_metrics self)).
           first_or_better (checkpoint_all_metrics self) (best_metric_dict self) metric_dict m} \<and>
      (\<forall>m \<in> set best_metric. map_of bmd m = map_of metric_dict m) \<and>
      (\<forall>m. m \<notin> set best_metric \<longrightarrow> map_of bmd m = map_of (best_metric_dict self) m) \<and>
      (\<forall>m v. map_of metric_dict m = Some v \<and> map_of (best_metric_dict self) m = Some v
         \<longrightarrow> m \<notin> set best_metric) \<and>
      (\<forall>m. map_of (checkpoint_all_metrics self) m = None \<longrightarrow> m \<notin> set best_metric)) \<and>
   (checkpoint_all_metrics self = [(''acc'', ''max'')] \<and> best_metric_dict self = [] \<longrightarrow>
      is_new_best_calls self
        [[(''acc'', 0.5)], [(''acc'', 0.3)], [(''acc'', 0.9)], [(''acc'', 0.9)], [(''acc'', 0.7)]]
      = Inr (self\<lparr>best_metric_dict := [(''acc'', 0.9)]\<rparr>, [[''acc''], [], [''acc''], [], []]))"
proof (intro conjI impI)
  obtain bmd best_metric where
    r: "is_new_best self metric_dict = Inr (self\<lparr>best_metric_dict := bmd\<rparr>, best_metric)"
    and s: "set best_metric =
       {m \<in> set (keys metric_dict). map_of (checkpoint_all_metrics self) m \<noteq> None \<and>
          first_or_better (checkpoint_all_metrics self) (best_metric_dict self) metric_dict m}"
    and l: "\<forall>m. map_of bmd m =
        (if m \<in> set (keys metric_dict) \<and> map_of (checkpoint_all_metrics self) m \<noteq> None \<and>
            first_or_better (checkpoint_all_metrics self) (best_metric_dict self) metric_dict m
         then map_of metric_dict m else map_of (best_metric_dict self) m)"
    using is_new_best_result by blast
  have 1: "set best_metric =
        {m \<in> set (keys metric_dict) \<inter> set (keys (checkpoint_all_metrics self)).
           first_or_better (checkpoint_all_metrics self) (best_metric_dict self) metric_dict m}"
    using s by (auto simp: set_keys)
  have 2: "\<forall>m \<in> set best_metric. map_of bmd m = map_of metric_dict m"
    using s l by auto
  have 3: "\<forall>m. m \<notin> set best_metric \<longrightarrow> map_of bmd m = map_of (best_metric_dict self) m"
    using s l by auto
  have 4: "\<forall>m v. map_of metric_dict m = Some v \<and> map_of (best_metric_dict self) m = Some v
         \<longrightarrow> m \<notin> set best_metric"
    using s by (auto simp: first_or_better_def)
  have 5: "\<forall>m. map_of (checkpoint_all_metrics self) m = None \<longrightarrow> m \<notin> set best_metric"
    using s by auto
  from r 1 2 3 4 5 show "\<exists>bmd best_metric.
      is_new_best self metric_dict = Inr (self\<lparr>best_metric_dict := bmd\<rparr>, best_metric) \<and>
      set best_metric =
        {m \<in> set (keys metric_dict) \<inter> set (keys (checkpoint_all_metrics self)).
           first_or_better (checkpoint_all_metrics self) (best_metric_dict self) metric_dict m} \<and>
      (\<forall>m \<in> set best_metric. map_of bmd m = map_of metric_dict m) \<and>
      (\<forall>m. m \<notin> set best_metric \<longrightarrow> map_of bmd m = map_of (best_metric_dict self) m) \<and>
      (\<forall>m v. map_of metric_dict m = Some v \<and> map_of (best_metric_dict self) m = Some v
         \<longrightarrow> m \<notin> set best_metric) \<and>
      (\<forall>m. map_of (checkpoint_all_metrics self) m = None \<longrightarrow> m \<notin> set best_metric)"
    by blast
next
  assume "checkpoint_all_metrics self = [(''acc'', ''max'')] \<and> best_metric_dict self = []"
  then show "is_new_best_calls self
        [[(''acc'', 0.5)], [(''acc'', 0.3)], [(''acc'', 0.9)], [(''acc'', 0.9)], [(''acc'', 0.7)]]
      = Inr (self\<lparr>best_metric_dict := [(''acc'', 0.9)]\<rparr>, [[''acc''], [], [''acc''], [], []])"
    by (simp add: is_new_best_def keys_def is_new_best_body.simps)
qed

theorem is_new_best_returns_improved_witness:
  "is_new_best
     (acc_checkpointer\<lparr>checkpoint_all_metrics := [(''acc'', ''max''), (''loss'', ''min'')],
        best_metric_dict := [(''acc'', 0.5), (''loss'', 0.2)]\<rparr>)
     [(''acc'', 0.9), (''loss'', 0.2), (''f1'', 1)]
   = Inr (acc_checkpointer\<lparr>checkpoint_all_metrics := [(''acc'', ''max''), (''loss'', ''min'')],
            best_metric_dict := [(''acc'', 0.9), (''loss'', 0.2)]\<rparr>, [''acc'']) \<and>
   ''acc'' \<in> set [''acc''] \<and> ''loss'' \<notin> set [''acc''] \<and>
   map_of [(''acc'', 0.9), (''loss'', 0.2), (''f1'', 1)] ''loss'' = Some (0.2 :: real) \<and>
   map_of [(''acc'', ''max''), (''loss'', ''min'')] ''f1'' = None \<and>
   checkpoint_all_metrics acc_checkpointer = [(''acc'', ''max'')] \<and>
   best_metric_dict acc_checkpointer = [] \<and>
   is_new_best_calls acc_checkpointer
        [[(''acc'', 0.5)], [(''acc'', 0.3)], [(''acc'', 0.9)], [(''acc'', 0.9)], [(''acc'', 0.7)]]
      = Inr (acc_checkpointer\<lparr>best_metric_dict := [(''acc'', 0.9)]\<rparr>,
             [[''acc''], [], [''acc''], [], []])"
proof -
  have pre: "checkpoint_all_metrics acc_checkpointer = [(''acc'', ''max'')] \<and>
             best_metric_dict acc_checkpointer = []"
    by (simp add: acc_checkpointer_def)
  have run: "is_new_best_calls acc_checkpointer
        [[(''acc'', 0.5)], [(''acc'', 0.3)], [(''acc'', 0.9)], [(''acc'', 0.9)], [(''acc'', 0.7)]]
      = Inr (acc_checkpointer\<lparr>best_metric_dict := [(''acc'', 0.9)]\<rparr>,
             [[''acc''], [], [''acc''], [], []])"
    using is_new_best_returns_improved [of acc_checkpointer "[]"] pre by blast
  have one: "is_new_best
     (acc_checkpointer\<lparr>checkpoint_all_metrics := [(''acc'', ''max''), (''loss'', ''min'')],
        best_metric_dict := [(''acc'', 0.5), (''loss'', 0.2)]\<rparr>)
     [(''acc'', 0.9), (''loss'', 0.2), (''f1'', 1)]
   = Inr (acc_checkpointer\<lparr>checkpoint_all_metrics := [(''acc'', ''max''), (''loss'', ''min'')],
            best_metric_dict := [(''acc'', 0.9), (''loss'', 0.2)]\<rparr>, [''acc''])"
    by (simp add: is_new_best_def keys_def is_new_best_body.simps)
  show ?thesis
    using pre run one by simp
qed

subsection \<open>Before the runway\<close>

text \<open>
  C7. A call of \<open>checkpoint\<close> with \<open>iteration < checkpoint_runway\<close> returns at once: the
  checkpointer (its ledger, its transition flag and every other field) and the file
  system are returned as they were given, and no exception is raised.
\<close>

theorem checkpoint_before_runway:
  "iteration < checkpoint_runway self \<Longrightarrow>
   checkpoint self fs iteration mdl optimizer lr_scheduler metric_dict = Inr (self, fs)"
  by (simp add: checkpoint_def)

theorem checkpoint_before_runway_witness:
  "4 < checkpoint_runway acc_checkpointer \<and>
   checkpoint acc_checkpointer empty_fs 4 some_model [7] None [(''acc'', 0.9)]
     = Inr (acc_checkpointer, empty_fs) \<and>
   \<not> checkpoint_condition_met acc_checkpointer"
  using checkpoint_before_runway
    [of 4 acc_checkpointer empty_fs some_model "[7]" None "[(''acc'', 0.9)]"]
  by (simp add: acc_checkpointer_def)

subsection \<open>Checkpoints after the runway\<close>

lemma checkpoint_file_neq_best_model_file:
  "checkpoint_file path iteration \<noteq> best_model_file path metric"
  by (simp add: checkpoint_file_def best_model_file_def)

lemma digit_char_digit: "d < 10 \<Longrightarrow> digit_char d \<in> set ''0123456789''"
  unfolding digit_char_def by (rule nth_mem) simp

lemma str_nat_digits: "set (str_nat n) \<subseteq> set ''0123456789''"
proof (induction n rule: str_nat.induct)
  case (1 n)
  show ?case
  proof (cases "n < 10")
    case True
    then show ?thesis
      using digit_char_digit [of n] by (subst str_nat.simps) simp
  next
    case False
    have "digit_char (n mod 10) \<in> set ''0123456789''"
      by (rule digit_char_digit) simp
    with False "1.IH" show ?thesis
      by (subst str_nat.simps) simp
  qed
qed

lemma no_slash_in_str_int: "CHR ''/'' \<notin> set (str_int i)"
  using str_nat_digits [of "nat i"] str_nat_digits [of "nat (- i)"]
  by (auto simp: str_int_def)

lemma no_slash_in_replace: "CHR ''/'' \<notin> set (replace metric (CHR ''/'') (CHR ''_''))"
  by (auto simp: replace_def)

lemma parent_entry: "CHR ''/'' \<notin> set nm \<Longrightarrow> parent (dir @ ''/'' @ nm) = dir"
proof -
  assume "CHR ''/'' \<notin> set nm"
  then have "dropWhile (\<lambda>ch. ch \<noteq> CHR ''/'') (rev nm @ CHR ''/'' # rev dir)
      = dropWhile (\<lambda>ch. ch \<noteq> CHR ''/'') (CHR ''/'' # rev dir)"
    by (intro dropWhile_append2) auto
  then show ?thesis
    by (simp add: parent_def)
qed

lemma checkpoint_file_parent: "parent (checkpoint_file path iteration) = path"
proof -
  have "CHR ''/'' \<notin> set (''checkpoint_'' @ str_int iteration @ ''.pth'')"
    by (simp add: no_slash_in_str_int)
  from parent_entry [OF this, of path] show ?thesis
    by (simp add: checkpoint_file_def)
qed

lemma best_model_file_parent: "parent (best_model_file path metric) = path"
proof -
  have "CHR ''/'' \<notin> set (''best_model_'' @ replace metric (CHR ''/'') (CHR ''_'') @ ''.pth'')"
    by (simp add: no_slash_in_replace)
  from parent_entry [OF this, of path] show ?thesis
    by (simp add: best_model_file_def)
qed

lemma checkpoint_file_no_dir:
  assumes "snapshot_dir fs path"
  shows "checkpoint_file path iteration \<notin> set (dirs fs)"
proof -
  have "CHR ''/'' \<notin> set (''checkpoint_'' @ str_int iteration)"
    by (simp add: no_slash_in_str_int)
  with assms have "path @ ''/'' @ (''checkpoint_'' @ str_int iteration) @ ''.pth'' \<notin> set (dirs fs)"
    unfolding snapshot_dir_def by blast
  then show ?thesis
    by (simp add: checkpoint_file_def)
qed

lemma best_model_file_no_dir:
  assumes "snapshot_dir fs path"
  shows "best_model_file path metric \<notin> set (dirs fs)"
proof -
  have "CHR ''/'' \<notin> set (''best_model_'' @ replace metric (CHR ''/'') (CHR ''_''))"
    by (simp add: no_slash_in_replace)
  with assms
  have "path @ ''/'' @ (''best_model_'' @ replace metric (CHR ''/'') (CHR ''_'')) @ ''.pth''
      \<notin> set (dirs fs)"
    unfolding snapshot_dir_def by blast
  then show ?thesis
    by (simp add: best_model_file_def)
qed

lemma write_file_entry:
  assumes "parent p \<in> set (dirs fs)" and "p \<notin> set (dirs fs)" and "p \<noteq> []"
  shows "write_file fs p sd = Inr (fs\<lparr>files := setitem (files fs) p sd\<rparr>)"
  using assms by (simp add: write_file_def)

lemma torch_save_snapshot:
  assumes "snapshot_dir fs path"
  shows "torch_save fs (checkpoint_file path iteration) sd
    = Inr (fs\<lparr>files := setitem (files fs) (checkpoint_file path iteration) sd\<rparr>)"
proof -
  have "checkpoint_file path iteration \<noteq> []"
    by (simp add: checkpoint_file_def)
  moreover have "parent (checkpoint_file path iteration) \<in> set (dirs fs)"
    using assms by (simp add: checkpoint_file_parent snapshot_dir_def)
  ultimately show ?thesis
    using checkpoint_file_no_dir [OF assms] by (simp add: torch_save_def write_file_entry)
qed

lemma copyfile_best_model:
  assumes "snapshot_dir fs path" and "map_of (files fs) src = Some sd"
    and "best_model_file path m \<noteq> src"
  shows "copyfile fs src (best_model_file path m)
    = Inr (fs\<lparr>files := setitem (files fs) (best_model_file path m) sd\<rparr>)"
proof -
  have "best_model_file path m \<noteq> []"
    by (simp add: best_model_file_def)
  moreover have "parent (best_model_file path m) \<in> set (dirs fs)"
    using assms(1) by (simp add: best_model_file_parent snapshot_dir_def)
  ultimately have "write_file fs (best_model_file path m) sd
      = Inr (fs\<lparr>files := setitem (files fs) (best_model_file path m) sd\<rparr>)"
    using best_model_file_no_dir [OF assms(1)] by (simp add: write_file_entry)
  with assms(2,3) show ?thesis
    by (auto simp: copyfile_def)
qed

lemma copy_best_result:
  assumes "map_of (files fs) src = Some sd"
    and "\<forall>m \<in> set ms. best_model_file path m \<noteq> src"
    and "snapshot_dir fs path"
  shows "\<exists>fs'. copy_best fs path src ms = Inr fs' \<and> dirs fs' = dirs fs \<and>
           (\<forall>p. map_of (files fs') p =
              (if p \<in> best_model_file path ` set ms then Some sd else map_of (files fs) p))"
  using assms
proof (induction ms arbitrary: fs)
  case Nil
  then show ?case by simp
next
  case (Cons m ms)
  let ?fs1 = "fs\<lparr>files := setitem (files fs) (best_model_file path m) sd\<rparr>"
  have c: "copyfile fs src (best_model_file path m) = Inr ?fs1"
    using Cons.prems by (simp add: copyfile_best_model)
  have src1: "map_of (files ?fs1) src = Some sd"
    using Cons.prems by (simp add: map_of_setitem)
  have dir1: "snapshot_dir ?fs1 path"
    using Cons.prems(3) by (simp add: snapshot_dir_def)
  have rest: "\<forall>m \<in> set ms. best_model_file path m \<noteq> src"
    using Cons.prems(2) by simp
  from Cons.IH [OF src1 rest dir1] obtain fs' where
    r: "copy_best ?fs1 path src ms = Inr fs'" and d: "dirs fs' = dirs ?fs1"
    and f: "\<forall>p. map_of (files fs') p =
              (if p \<in> best_model_file path ` set ms then Some sd else map_of (files ?fs1) p)"
    by blast
  have "map_of (files fs') p =
          (if p \<in> best_model_file path ` set (m # ms) then Some sd else map_of (files fs) p)" for p
    using f by (auto simp: map_of_setitem)
  then show ?case
    using c r d by simp
qed

lemma is_new_best_loop_untracked:
  "\<forall>m \<in> set ms. map_of al m = None \<Longrightarrow> is_new_best_loop al md ms st = Inr st"
  by (induction ms arbitrary: st) (auto simp: is_new_best_body.simps split: prod.splits)

lemma flag_set:
  "(if \<not> checkpoint_condition_met self then self\<lparr>checkpoint_condition_met := True\<rparr> else self)
   = self\<lparr>checkpoint_condition_met := True\<rparr>"
  by (cases self) auto

lemma is_new_best_flag:
  "is_new_best (self\<lparr>checkpoint_condition_met := b\<rparr>) metric_dict
     = (case is_new_best self metric_dict of
          Inl e \<Rightarrow> Inl e
        | Inr (self', best_metric) \<Rightarrow> Inr (self'\<lparr>checkpoint_condition_met := b\<rparr>, best_metric))"
  by (simp add: is_new_best_def split: sum.splits prod.splits)

lemma is_new_best_disjoint:
  assumes "set (keys (checkpoint_all_metrics self)) \<inter> set (keys metric_dict) = {}"
  shows "is_new_best self metric_dict = Inr (self, [])"
proof -
  have "\<forall>m \<in> set (keys metric_dict). map_of (checkpoint_all_metrics self) m = None"
    using assms by (auto simp: set_keys)
  then show ?thesis
    by (simp add: is_new_best_def is_new_best_loop_untracked)
qed

text \<open>
  What a call at or past the runway does when the checkpoint directory is one in which
  snapshots can be written: it returns, with the flag set and the ledger as \<open>is_new_best\<close>
  leaves it; the snapshot and the best-model files of the new bests hold the state
  dictionary of the call, and nothing else of the file system changes.
\<close>

lemma checkpoint_after_runway:
  assumes "checkpoint_runway self \<le> iteration"
    and "snapshot_dir fs (checkpoint_path self)"
  shows "\<exists>bmd best_metric fs'.
     is_new_best self metric_dict = Inr (self\<lparr>best_metric_dict := bmd\<rparr>, best_metric) \<and>
     checkpoint self fs iteration mdl optimizer lr_scheduler metric_dict
       = Inr (self\<lparr>checkpoint_condition_met := True, best_metric_dict := bmd\<rparr>, fs') \<and>
     dirs fs' = dirs fs \<and>
     (\<forall>p. map_of (files fs') p =
        (if p = checkpoint_file (checkpoint_path self) iteration
            \<or> p \<in> best_model_file (checkpoint_path self) ` set best_metric
         then Some (collect_state_dict iteration mdl optimizer lr_scheduler metric_dict)
         else map_of (files fs) p))"
proof -
  let ?self1 = "self\<lparr>checkpoint_condition_met := True\<rparr>"
  let ?sd = "collect_state_dict iteration mdl optimizer lr_scheduler metric_dict"
  let ?ckpt = "checkpoint_file (checkpoint_path self) iteration"
  let ?fs1 = "fs\<lparr>files := setitem (files fs) ?ckpt ?sd\<rparr>"
  have self1: "(if \<not> checkpoint_condition_met self \<and> checkpoint_runway self \<le> iteration
                then self\<lparr>checkpoint_condition_met := True\<rparr> else self) = ?self1"
    using assms(1) by (simp add: flag_set)
  have save: "torch_save fs ?ckpt ?sd = Inr ?fs1"
    using assms(2) by (rule torch_save_snapshot)
  have unfolded: "checkpoint self fs iteration mdl optimizer lr_scheduler metric_dict =
      (if set (keys (checkpoint_all_metrics ?self1)) \<inter> set (keys metric_dict) \<noteq> {}
       then (case is_new_best ?self1 metric_dict of
               Inl e \<Rightarrow> Inl e
             | Inr (self2, new_best_metrics) \<Rightarrow>
                 (case copy_best ?fs1 (checkpoint_path self2) ?ckpt new_best_metrics of
                    Inl e \<Rightarrow> Inl e
                  | Inr fs2 \<Rightarrow> Inr (self2, fs2)))
       else Inr (?self1, ?fs1))"
    unfolding checkpoint_def Let_def self1 using assms(1)
    by (simp add: save cong del: sum.case_cong_weak prod.case_cong_weak
          split: sum.splits prod.splits)
  have fs1: "map_of (files ?fs1) p = (if p = ?ckpt then Some ?sd else map_of (files fs) p)" for p
    by (simp add: map_of_setitem)
  have d1: "dirs ?fs1 = dirs fs"
    by simp
  have dir1: "snapshot_dir ?fs1 (checkpoint_path self)"
    using assms(2) by (simp add: snapshot_dir_def)
  show ?thesis
  proof (cases "set (keys (checkpoint_all_metrics self)) \<inter> set (keys metric_dict) = {}")
    case True
    then have n: "is_new_best self metric_dict
        = Inr (self\<lparr>best_metric_dict := best_metric_dict self\<rparr>, [])"
      by (simp add: is_new_best_disjoint)
    have c: "checkpoint self fs iteration mdl optimizer lr_scheduler metric_dict
        = Inr (self\<lparr>checkpoint_condition_met := True,
                 best_metric_dict := best_metric_dict self\<rparr>, ?fs1)"
      using True by (simp add: unfolded)
    show ?thesis
      using n c d1 fs1
      by (intro exI [of _ "best_metric_dict self"] exI [of _ "[]"] exI [of _ ?fs1]) simp
  next
    case False
    obtain bmd best_metric where
      n: "is_new_best self metric_dict = Inr (self\<lparr>best_metric_dict := bmd\<rparr>, best_metric)"
      using is_new_best_result [of self metric_dict] by blast
    have n1: "is_new_best ?self1 metric_dict
        = Inr (self\<lparr>checkpoint_condition_met := True, best_metric_dict := bmd\<rparr>, best_metric)"
      using n by (simp add: is_new_best_flag)
    have src: "map_of (files ?fs1) ?ckpt = Some ?sd"
      by (simp add: map_of_setitem)
    have dst: "\<forall>m \<in> set best_metric. best_model_file (checkpoint_path self) m \<noteq> ?ckpt"
      using checkpoint_file_neq_best_model_file by metis
    from copy_best_result [OF src dst dir1] obtain fs' where
      r: "copy_best ?fs1 (checkpoint_path self) ?ckpt best_metric = Inr fs'"
      and d: "dirs fs' = dirs ?fs1"
      and f: "\<forall>p. map_of (files fs') p =
                (if p \<in> best_model_file (checkpoint_path self) ` set best_metric
                 then Some ?sd else map_of (files ?fs1) p)"
      by blast
    have c: "checkpoint self fs iteration mdl optimizer lr_scheduler metric_dict
        = Inr (self\<lparr>checkpoint_condition_met := True, best_metric_dict := bmd\<rparr>, fs')"
      using False n1 r by (simp add: unfolded)
    have "map_of (files fs') p =
        (if p = ?ckpt \<or> p \<in> best_model_file (checkpoint_path self) ` set best_metric
         then Some ?sd else map_of (files fs) p)" for p
      using f fs1 by simp
    then show ?thesis
      using n c d d1
      by (intro exI [of _ bmd] exI [of _ best_metric] exI [of _ fs']) simp
  qed
qed

text \<open>
  Without the checkpoint directory the call raises at \<open>torch.save\<close>.
\<close>

lemma checkpoint_without_directory:
  assumes "checkpoint_runway self \<le> iteration"
    and "checkpoint_path self \<noteq> []"
    and "\<not> path_exists fs (checkpoint_path self)"
    and "checkpoint_file (checkpoint_path self) iteration \<notin> set (dirs fs)"
  shows "checkpoint self fs iteration mdl optimizer lr_scheduler metric_dict
    = Inl FileNotFoundError"
proof -
  have "torch_save fs (checkpoint_file (checkpoint_path self) iteration) sd
      = Inl FileNotFoundError" for sd
    using assms(2,3,4)
    by (simp add: torch_save_def write_file_def checkpoint_file_parent path_exists_def)
  with assms(1) show ?thesis
    by (simp add: checkpoint_def Let_def)
qed

lemma checkpoint_freq_unused:
  "checkpoint (self\<lparr>checkpoint_freq := freq\<rparr>) fs iteration mdl optimizer lr_scheduler metric_dict
     = (case checkpoint self fs iteration mdl optimizer lr_scheduler metric_dict of
          Inl e \<Rightarrow> Inl e
        | Inr (self', fs') \<Rightarrow> Inr (self'\<lparr>checkpoint_freq := freq\<rparr>, fs'))"
  by (simp add: checkpoint_def Let_def is_new_best_def split: sum.splits prod.splits)

lemmas eval_checkpoint =
  checkpoint_def is_new_best_def keys_def is_new_best_body.simps copyfile_def torch_save_def
  write_file_def parent_def
  checkpoint_file_def best_model_file_def str_int_def str_nat.simps digit_char_def replace_def
  collect_state_dict_def Let_def

text \<open>
  C9. Let the checkpoint directory be one in which snapshots can be written, as the
  constructor leaves it. A call of \<open>checkpoint\<close> with \<open>iteration >= checkpoint_runway\<close> then
  returns and leaves the file \<open>checkpoint_<iteration>.pth\<close> of that directory holding the
  state dictionary of the call, whatever \<open>metric_dict\<close> is (empty, or disjoint from the
  tracked metrics). \<open>checkpoint_freq\<close> is not read: with another frequency the call does
  the same on every file system, and only the returned checkpointer's own
  \<open>checkpoint_freq\<close> field differs.
\<close>

theorem checkpoint_writes_snapshot:
  "(checkpoint_runway self \<le> iteration \<and> snapshot_dir fs (checkpoint_path self) \<longrightarrow>
      (\<exists>self' fs'.
         checkpoint self fs iteration mdl optimizer lr_scheduler metric_dict = Inr (self', fs') \<and>
         map_of (files fs') (checkpoint_file (checkpoint_path self) iteration)
           = Some (collect_state_dict iteration mdl optimizer lr_scheduler metric_dict) \<and>
         parent (checkpoint_file (checkpoint_path self) iteration) = checkpoint_path self)) \<and>
   checkpoint (self\<lparr>checkpoint_freq := freq\<rparr>) fs iteration mdl optimizer lr_scheduler metric_dict
     = (case checkpoint self fs iteration mdl optimizer lr_scheduler metric_dict of
          Inl e \<Rightarrow> Inl e
        | Inr (self', fs') \<Rightarrow> Inr (self'\<lparr>checkpoint_freq := freq\<rparr>, fs'))"
proof (intro conjI impI)
  assume "checkpoint_runway self \<le> iteration \<and> snapshot_dir fs (checkpoint_path self)"
  then have "checkpoint_runway self \<le> iteration" and "snapshot_dir fs (checkpoint_path self)"
    by simp_all
  from checkpoint_after_runway [OF this, of metric_dict mdl optimizer lr_scheduler]
  show "\<exists>self' fs'.
         checkpoint self fs iteration mdl optimizer lr_scheduler metric_dict = Inr (self', fs') \<and>
         map_of (files fs') (checkpoint_file (checkpoint_path self) iteration)
           = Some (collect_state_dict iteration mdl optimizer lr_scheduler metric_dict) \<and>
         parent (checkpoint_file (checkpoint_path self) iteration) = checkpoint_path self"
    by (auto simp: checkpoint_file_parent)
next
  show "checkpoint (self\<lparr>checkpoint_freq := freq\<rparr>) fs iteration mdl optimizer lr_scheduler metric_dict
     = (case checkpoint self fs iteration mdl optimizer lr_scheduler metric_dict of
          Inl e \<Rightarrow> Inl e
        | Inr (self', fs') \<Rightarrow> Inr (self'\<lparr>checkpoint_freq := freq\<rparr>, fs'))"
    by (rule checkpoint_freq_unused)
qed

theorem checkpoint_writes_snapshot_witness:
  "init acc_config empty_fs = (Inr acc_checkpointer, fresh_fs) \<and>
   checkpoint_runway acc_checkpointer \<le> 7 \<and>
   snapshot_dir fresh_fs (checkpoint_path acc_checkpointer) \<and>
   checkpoint acc_checkpointer fresh_fs 7 some_model [7] None []
     = Inr (acc_checkpointer\<lparr>checkpoint_condition_met := True\<rparr>,
            \<lparr>dirs = [''ckpt''],
             files = [(''ckpt/checkpoint_7.pth'',
                       \<lparr>sd_iteration = 7,
                        sd_model = \<lparr>mp_name = ''bert'', mp_module_pool = [1, 2, 3]\<rparr>,
                        sd_optimizer = [7], sd_lr_scheduler = None, sd_metric_dict = []\<rparr>)]\<rparr>) \<and>
   checkpoint (acc_checkpointer\<lparr>checkpoint_freq := 1000\<rparr>) fresh_fs 7 some_model [7] None
       [(''loss'', 0.1)]
     = Inr (acc_checkpointer\<lparr>checkpoint_freq := 1000, checkpoint_condition_met := True\<rparr>,
            \<lparr>dirs = [''ckpt''],
             files = [(''ckpt/checkpoint_7.pth'',
                       \<lparr>sd_iteration = 7,
                        sd_model = \<lparr>mp_name = ''bert'', mp_module_pool = [1, 2, 3]\<rparr>,
                        sd_optimizer = [7], sd_lr_scheduler = None,
                        sd_metric_dict = [(''loss'', 0.1)]\<rparr>)]\<rparr>) \<and>
   checkpoint acc_checkpointer empty_fs 7 some_model [7] None [] = Inl FileNotFoundError"
proof -
  have d: "snapshot_dir fresh_fs (checkpoint_path acc_checkpointer)"
    by (simp add: snapshot_dir_def fresh_fs_def acc_checkpointer_def)
  have r: "checkpoint_runway acc_checkpointer \<le> 7"
    by (simp add: acc_checkpointer_def)
  have e: "checkpoint acc_checkpointer empty_fs 7 some_model [7] None [] = Inl FileNotFoundError"
    by (simp add: eval_checkpoint acc_checkpointer_def empty_fs_def contains_def)
  show ?thesis
    using checkpoint_writes_snapshot [of acc_checkpointer 7 fresh_fs some_model "[7]" None "[]" 1000]
      checkpoint_writes_snapshot
        [of acc_checkpointer 7 fresh_fs some_model "[7]" None "[(''loss'', 0.1)]" 1000]
      d r e init_acc_config
    by (simp add: eval_checkpoint acc_checkpointer_def fresh_fs_def some_model_def)
qed

text \<open>
  C8. Let the checkpoint directory be one in which snapshots can be written, as the
  constructor leaves it. When a call of \<open>checkpoint\<close> with \<open>iteration >= checkpoint_runway\<close>
  brings a new best for a tracked metric (the metric is in \<open>metric_dict\<close>, and is first seen
  or strictly better than its ledger entry), then after the call the file
  \<open>best_model_<metric>.pth\<close>, with every \<open>/\<close> of the metric replaced by \<open>_\<close>, is an entry of
  the checkpoint directory and holds what \<open>checkpoint_<iteration>.pth\<close> holds: the state
  dictionary of this call, whatever the file held before.
\<close>

theorem best_model_copy_written:
  assumes "checkpoint_runway self \<le> iteration"
    and "snapshot_dir fs (checkpoint_path self)"
    and "metric \<in> set (keys metric_dict) \<inter> set (keys (checkpoint_all_metrics self))"
    and "first_or_better (checkpoint_all_metrics self) (best_metric_dict self) metric_dict metric"
  shows "\<exists>self' fs'.
     checkpoint self fs iteration mdl optimizer lr_scheduler metric_dict = Inr (self', fs') \<and>
     map_of (files fs') (best_model_file (checkpoint_path self) metric)
       = Some (collect_state_dict iteration mdl optimizer lr_scheduler metric_dict) \<and>
     map_of (files fs') (checkpoint_file (checkpoint_path self) iteration)
       = Some (collect_state_dict iteration mdl optimizer lr_scheduler metric_dict) \<and>
     parent (best_model_file (checkpoint_path self) metric) = checkpoint_path self \<and>
     CHR ''/'' \<notin> set (drop (length (checkpoint_path self) + 1)
                           (best_model_file (checkpoint_path self) metric))"
proof -
  from checkpoint_after_runway [OF assms(1,2), of metric_dict mdl optimizer lr_scheduler]
  obtain bmd best_metric fs' where
    n: "is_new_best self metric_dict = Inr (self\<lparr>best_metric_dict := bmd\<rparr>, best_metric)"
    and c: "checkpoint self fs iteration mdl optimizer lr_scheduler metric_dict
       = Inr (self\<lparr>checkpoint_condition_met := True, best_metric_dict := bmd\<rparr>, fs')"
    and f: "\<forall>p. map_of (files fs') p =
        (if p = checkpoint_file (checkpoint_path self) iteration
            \<or> p \<in> best_model_file (checkpoint_path self) ` set best_metric
         then Some (collect_state_dict iteration mdl optimizer lr_scheduler metric_dict)
         else map_of (files fs) p)"
    by blast
  from is_new_best_result [of self metric_dict] n
  have "set best_metric =
       {m \<in> set (keys metric_dict). map_of (checkpoint_all_metrics self) m \<noteq> None \<and>
          first_or_better (checkpoint_all_metrics self) (best_metric_dict self) metric_dict m}"
    by auto
  with assms(3,4) have "metric \<in> set best_metric"
    by (auto simp: set_keys)
  moreover have "CHR ''/'' \<notin> set (drop (length (checkpoint_path self) + 1)
      (best_model_file (checkpoint_path self) metric))"
    by (simp add: best_model_file_def no_slash_in_replace)
  ultimately show ?thesis
    using f c by (auto simp: best_model_file_parent)
qed

theorem best_model_copy_written_witness:
  "init acc_config empty_fs = (Inr acc_checkpointer, fresh_fs) \<and>
   checkpoint_runway acc_checkpointer \<le> 5 \<and>
   snapshot_dir fresh_fs (checkpoint_path acc_checkpointer) \<and>
   ''acc'' \<in> set (keys [(''acc'', 0.9 :: real)]) \<inter> set (keys (checkpoint_all_metrics acc_checkpointer)) \<and>
   first_or_better (checkpoint_all_metrics acc_checkpointer) (best_metric_dict acc_checkpointer)
     [(''acc'', 0.9)] ''acc'' \<and>
   checkpoint acc_checkpointer fresh_fs 5 some_model [7] None [(''acc'', 0.9)]
     = Inr (acc_checkpointer\<lparr>checkpoint_condition_met := True,
              best_metric_dict := [(''acc'', 0.9)]\<rparr>,
            \<lparr>dirs = [''ckpt''],
             files = [(''ckpt/checkpoint_5.pth'',
                       \<lparr>sd_iteration = 5,
                        sd_model = \<lparr>mp_name = ''bert'', mp_module_pool = [1, 2, 3]\<rparr>,
                        sd_optimizer = [7], sd_lr_scheduler = None,
                        sd_metric_dict = [(''acc'', 0.9)]\<rparr>),
                      (''ckpt/best_model_acc.pth'',
                       \<lparr>sd_iteration = 5,
                        sd_model = \<lparr>mp_name = ''bert'', mp_module_pool = [1, 2, 3]\<rparr>,
                        sd_optimizer = [7], sd_lr_scheduler = None,
                        sd_metric_dict = [(''acc'', 0.9)]\<rparr>)]\<rparr>) \<and>
   checkpoint_runway stale_checkpointer \<le> 6 \<and>
   snapshot_dir stale_fs (checkpoint_path stale_checkpointer) \<and>
   first_or_better (checkpoint_all_metrics stale_checkpointer) (best_metric_dict stale_checkpointer)
     [(''acc'', 0.9)] ''acc'' \<and>
   checkpoint stale_checkpointer stale_fs 6 some_model [8] None [(''acc'', 0.9)]
     = Inr (stale_checkpointer\<lparr>best_metric_dict := [(''acc'', 0.9)]\<rparr>,
            \<lparr>dirs = [''ckpt''],
             files = [(''ckpt/checkpoint_5.pth'',
                       \<lparr>sd_iteration = 5,
                        sd_model = \<lparr>mp_name = ''bert'', mp_module_pool = [1, 2, 3]\<rparr>,
                        sd_optimizer = [4], sd_lr_scheduler = None,
                        sd_metric_dict = [(''acc'', 0.5)]\<rparr>),
                      (''ckpt/best_model_acc.pth'',
                       \<lparr>sd_iteration = 6,
                        sd_model = \<lparr>mp_name = ''bert'', mp_module_pool = [1, 2, 3]\<rparr>,
                        sd_optimizer = [8], sd_lr_scheduler = None,
                        sd_metric_dict = [(''acc'', 0.9)]\<rparr>),
                      (''ckpt/checkpoint_6.pth'',
                       \<lparr>sd_iteration = 6,
                        sd_model = \<lparr>mp_name = ''bert'', mp_module_pool = [1, 2, 3]\<rparr>,
                        sd_optimizer = [8], sd_lr_scheduler = None,
                        sd_metric_dict = [(''acc'', 0.9)]\<rparr>)]\<rparr>) \<and>
   checkpoint_runway task_checkpointer \<le> 5 \<and>
   snapshot_dir fresh_fs (checkpoint_path task_checkpointer) \<and>
   ''task/dev/acc'' \<in> set (keys [(''task/dev/acc'', 0.9 :: real)])
      \<inter> set (keys (checkpoint_all_metrics task_checkpointer)) \<and>
   first_or_better (checkpoint_all_metrics task_checkpointer) (best_metric_dict task_checkpointer)
     [(''task/dev/acc'', 0.9)] ''task/dev/acc'' \<and>
   best_model_file (checkpoint_path task_checkpointer) ''task/dev/acc''
     = ''ckpt/best_model_task_dev_acc.pth'' \<and>
   checkpoint task_checkpointer fresh_fs 5 some_model [7] None [(''task/dev/acc'', 0.9)]
     = Inr (task_checkpointer\<lparr>checkpoint_condition_met := True,
              best_metric_dict := [(''task/dev/acc'', 0.9)]\<rparr>,
            \<lparr>dirs = [''ckpt''],
             files = [(''ckpt/checkpoint_5.pth'',
                       \<lparr>sd_iteration = 5,
                        sd_model = \<lparr>mp_name = ''bert'', mp_module_pool = [1, 2, 3]\<rparr>,
                        sd_optimizer = [7], sd_lr_scheduler = None,
                        sd_metric_dict = [(''task/dev/acc'', 0.9)]\<rparr>),
                      (''ckpt/best_model_task_dev_acc.pth'',
                       \<lparr>sd_iteration = 5,
                        sd_model = \<lparr>mp_name = ''bert'', mp_module_pool = [1, 2, 3]\<rparr>,
                        sd_optimizer = [7], sd_lr_scheduler = None,
                        sd_metric_dict = [(''task/dev/acc'', 0.9)]\<rparr>)]\<rparr>)"
proof -
  have d: "snapshot_dir fresh_fs (checkpoint_path acc_checkpointer)"
    "snapshot_dir stale_fs (checkpoint_path stale_checkpointer)"
    "snapshot_dir fresh_fs (checkpoint_path task_checkpointer)"
    by (simp_all add: snapshot_dir_def fresh_fs_def stale_fs_def acc_checkpointer_def
        stale_checkpointer_def task_checkpointer_def)
  have r: "checkpoint_runway acc_checkpointer \<le> 5" "checkpoint_runway stale_checkpointer \<le> 6"
    "checkpoint_runway task_checkpointer \<le> 5"
    by (simp_all add: acc_checkpointer_def stale_checkpointer_def task_checkpointer_def)
  have k: "''acc'' \<in> set (keys [(''acc'', 0.9 :: real)])
        \<inter> set (keys (checkpoint_all_metrics acc_checkpointer))"
    "''acc'' \<in> set (keys [(''acc'', 0.9 :: real)])
        \<inter> set (keys (checkpoint_all_metrics stale_checkpointer))"
    "''task/dev/acc'' \<in> set (keys [(''task/dev/acc'', 0.9 :: real)])
        \<inter> set (keys (checkpoint_all_metrics task_checkpointer))"
    by (simp_all add: keys_def acc_checkpointer_def stale_checkpointer_def task_checkpointer_def)
  have b1: "first_or_better (checkpoint_all_metrics acc_checkpointer)
        (best_metric_dict acc_checkpointer) [(''acc'', 0.9)] ''acc''"
    and b3: "first_or_better (checkpoint_all_metrics task_checkpointer)
        (best_metric_dict task_checkpointer) [(''task/dev/acc'', 0.9)] ''task/dev/acc''"
    by (simp_all add: first_or_better_def acc_checkpointer_def task_checkpointer_def)
  have "map_of [(''acc'', 0.9 :: real)] ''acc'' = Some 0.9 \<and>
      map_of (best_metric_dict stale_checkpointer) ''acc'' = Some 0.5 \<and>
      map_of (checkpoint_all_metrics stale_checkpointer) ''acc'' = Some ''max'' \<and>
      (0.9 :: real) > 0.5"
    by (simp add: stale_checkpointer_def acc_checkpointer_def)
  then have b2: "first_or_better (checkpoint_all_metrics stale_checkpointer)
        (best_metric_dict stale_checkpointer) [(''acc'', 0.9)] ''acc''"
    unfolding first_or_better_def by blast
  have n: "best_model_file (checkpoint_path task_checkpointer) ''task/dev/acc''
      = ''ckpt/best_model_task_dev_acc.pth''"
    by (simp add: best_model_file_def replace_def task_checkpointer_def acc_checkpointer_def)
  have c1: "checkpoint acc_checkpointer fresh_fs 5 some_model [7] None [(''acc'', 0.9)]
     = Inr (acc_checkpointer\<lparr>checkpoint_condition_met := True,
              best_metric_dict := [(''acc'', 0.9)]\<rparr>,
            \<lparr>dirs = [''ckpt''],
             files = [(''ckpt/checkpoint_5.pth'',
                       \<lparr>sd_iteration = 5,
                        sd_model = \<lparr>mp_name = ''bert'', mp_module_pool = [1, 2, 3]\<rparr>,
                        sd_optimizer = [7], sd_lr_scheduler = None,
                        sd_metric_dict = [(''acc'', 0.9)]\<rparr>),
                      (''ckpt/best_model_acc.pth'',
                       \<lparr>sd_iteration = 5,
                        sd_model = \<lparr>mp_name = ''bert'', mp_module_pool = [1, 2, 3]\<rparr>,
                        sd_optimizer = [7], sd_lr_scheduler = None,
                        sd_metric_dict = [(''acc'', 0.9)]\<rparr>)]\<rparr>)"
    using best_model_copy_written [OF r(1) d(1) k(1) b1, of some_model "[7]" None]
    by (simp add: eval_checkpoint acc_checkpointer_def fresh_fs_def some_model_def)
  have c2: "checkpoint stale_checkpointer stale_fs 6 some_model [8] None [(''acc'', 0.9)]
     = Inr (stale_checkpointer\<lparr>best_metric_dict := [(''acc'', 0.9)]\<rparr>,
            \<lparr>dirs = [''ckpt''],
             files = [(''ckpt/checkpoint_5.pth'',
                       \<lparr>sd_iteration = 5,
                        sd_model = \<lparr>mp_name = ''bert'', mp_module_pool = [1, 2, 3]\<rparr>,
                        sd_optimizer = [4], sd_lr_scheduler = None,
                        sd_metric_dict = [(''acc'', 0.5)]\<rparr>),
                      (''ckpt/best_model_acc.pth'',
                       \<lparr>sd_iteration = 6,
                        sd_model = \<lparr>mp_name = ''bert'', mp_module_pool = [1, 2, 3]\<rparr>,
                        sd_optimizer = [8], sd_lr_scheduler = None,
                        sd_metric_dict = [(''acc'', 0.9)]\<rparr>),
                      (''ckpt/checkpoint_6.pth'',
                       \<lparr>sd_iteration = 6,
                        sd_model = \<lparr>mp_name = ''bert'', mp_module_pool = [1, 2, 3]\<rparr>,
                        sd_optimizer = [8], sd_lr_scheduler = None,
                        sd_metric_dict = [(''acc'', 0.9)]\<rparr>)]\<rparr>)"
    using best_model_copy_written [OF r(2) d(2) k(2) b2, of some_model "[8]" None]
    by (simp add: eval_checkpoint acc_checkpointer_def stale_checkpointer_def stale_fs_def
        some_model_def)
  have c3: "checkpoint task_checkpointer fresh_fs 5 some_model [7] None [(''task/dev/acc'', 0.9)]
     = Inr (task_checkpointer\<lparr>checkpoint_condition_met := True,
              best_metric_dict := [(''task/dev/acc'', 0.9)]\<rparr>,
            \<lparr>dirs = [''ckpt''],
             files = [(''ckpt/checkpoint_5.pth'',
                       \<lparr>sd_iteration = 5,
                        sd_model = \<lparr>mp_name = ''bert'', mp_module_pool = [1, 2, 3]\<rparr>,
                        sd_optimizer = [7], sd_lr_scheduler = None,
                        sd_metric_dict = [(''task/dev/acc'', 0.9)]\<rparr>),
                      (''ckpt/best_model_task_dev_acc.pth'',
                       \<lparr>sd_iteration = 5,
                        sd_model = \<lparr>mp_name = ''bert'', mp_module_pool = [1, 2, 3]\<rparr>,
                        sd_optimizer = [7], sd_lr_scheduler = None,
                        sd_metric_dict = [(''task/dev/acc'', 0.9)]\<rparr>)]\<rparr>)"
    using best_model_copy_written [OF r(3) d(3) k(3) b3, of some_model "[7]" None]
    by (simp add: eval_checkpoint acc_checkpointer_def task_checkpointer_def fresh_fs_def
        some_model_def)
  show ?thesis
    using init_acc_config r d k(1,3) b1 b2 b3 n c1 c2 c3 by (intro conjI)
qed

subsection \<open>The ledger over a run\<close>

lemma ledger_update_inject:
  "self\<lparr>best_metric_dict := a\<rparr> = self\<lparr>best_metric_dict := b\<rparr> \<Longrightarrow> a = b"
  by (drule arg_cong [where f = best_metric_dict]) simp

text \<open>
  A call at or past the runway that returns leaves the checkpointer with the flag set and
  the ledger as \<open>is_new_best\<close> leaves it.
\<close>

lemma checkpoint_returns:
  assumes "checkpoint self fs iteration mdl optimizer lr_scheduler metric_dict = Inr (self', fs')"
    and "checkpoint_runway self \<le> iteration"
  shows "\<exists>bmd best_metric.
     is_new_best self metric_dict = Inr (self\<lparr>best_metric_dict := bmd\<rparr>, best_metric) \<and>
     self' = self\<lparr>checkpoint_condition_met := True, best_metric_dict := bmd\<rparr>"
proof -
  let ?self1 = "self\<lparr>checkpoint_condition_met := True\<rparr>"
  let ?sd = "collect_state_dict iteration mdl optimizer lr_scheduler metric_dict"
  let ?ckpt = "checkpoint_file (checkpoint_path self) iteration"
  have self1: "(if \<not> checkpoint_condition_met self \<and> checkpoint_runway self \<le> iteration
                then self\<lparr>checkpoint_condition_met := True\<rparr> else self) = ?self1"
    using assms(2) by (simp add: flag_set)
  have unfolded: "checkpoint self fs iteration mdl optimizer lr_scheduler metric_dict =
      (case torch_save fs ?ckpt ?sd of
         Inl e \<Rightarrow> Inl e
       | Inr fs1 \<Rightarrow>
           if set (keys (checkpoint_all_metrics ?self1)) \<inter> set (keys metric_dict) \<noteq> {}
           then (case is_new_best ?self1 metric_dict of
                   Inl e \<Rightarrow> Inl e
                 | Inr (self2, new_best_metrics) \<Rightarrow>
                     (case copy_best fs1 (checkpoint_path self2) ?ckpt new_best_metrics of
                        Inl e \<Rightarrow> Inl e
                      | Inr fs2 \<Rightarrow> Inr (self2, fs2)))
           else Inr (?self1, fs1))"
    unfolding checkpoint_def Let_def self1 using assms(2)
    by (simp cong del: sum.case_cong_weak prod.case_cong_weak
          split: sum.splits prod.splits)
  show ?thesis
  proof (cases "set (keys (checkpoint_all_metrics self)) \<inter> set (keys metric_dict) = {}")
    case True
    then have n: "is_new_best self metric_dict
        = Inr (self\<lparr>best_metric_dict := best_metric_dict self\<rparr>, [])"
      by (simp add: is_new_best_disjoint)
    from assms(1) True have "self' = ?self1"
      unfolding unfolded by (auto split: sum.splits)
    then have "self' = self\<lparr>checkpoint_condition_met := True,
        best_metric_dict := best_metric_dict self\<rparr>"
      by simp
    with n show ?thesis
      by blast
  next
    case False
    obtain bmd best_metric where
      n: "is_new_best self metric_dict = Inr (self\<lparr>best_metric_dict := bmd\<rparr>, best_metric)"
      using is_new_best_result [of self metric_dict] by blast
    have n1: "is_new_best ?self1 metric_dict
        = Inr (self\<lparr>checkpoint_condition_met := True, best_metric_dict := bmd\<rparr>, best_metric)"
      using n by (simp add: is_new_best_flag)
    from assms(1) False
    have "self' = self\<lparr>checkpoint_condition_met := True, best_metric_dict := bmd\<rparr>"
      unfolding unfolded by (auto simp: n1 split: sum.splits)
    with n show ?thesis
      by blast
  qed
qed

lemma checkpoint_ledger:
  assumes "checkpoint self fs iteration mdl optimizer lr_scheduler metric_dict = Inr (self', fs')"
    and "checkpoint_runway self \<le> iteration"
  shows "checkpoint_runway self' = checkpoint_runway self \<and>
     checkpoint_all_metrics self' = checkpoint_all_metrics self \<and>
     (\<forall>m. map_of (best_metric_dict self') m =
        (case map_of metric_dict m of
           None \<Rightarrow> map_of (best_metric_dict self) m
         | Some v \<Rightarrow> ledger_after (map_of (checkpoint_all_metrics self) m)
                      (map_of (best_metric_dict self) m) v))"
proof -
  from checkpoint_returns [OF assms]
  obtain bmd best_metric where
    n: "is_new_best self metric_dict = Inr (self\<lparr>best_metric_dict := bmd\<rparr>, best_metric)"
    and c: "self' = self\<lparr>checkpoint_condition_met := True, best_metric_dict := bmd\<rparr>"
    by blast
  from is_new_best_result [of self metric_dict] obtain bmd2 best2 where
    n2: "is_new_best self metric_dict = Inr (self\<lparr>best_metric_dict := bmd2\<rparr>, best2)"
    and l2: "\<forall>m. map_of bmd2 m =
        (if m \<in> set (keys metric_dict) \<and> map_of (checkpoint_all_metrics self) m \<noteq> None \<and>
            first_or_better (checkpoint_all_metrics self) (best_metric_dict self) metric_dict m
         then map_of metric_dict m else map_of (best_metric_dict self) m)"
    by blast
  from n n2 have "self\<lparr>best_metric_dict := bmd2\<rparr> = self\<lparr>best_metric_dict := bmd\<rparr>"
    by simp
  then have "bmd2 = bmd"
    by (rule ledger_update_inject)
  with l2 have l: "map_of bmd m =
        (if m \<in> set (keys metric_dict) \<and> map_of (checkpoint_all_metrics self) m \<noteq> None \<and>
            first_or_better (checkpoint_all_metrics self) (best_metric_dict self) metric_dict m
         then map_of metric_dict m else map_of (best_metric_dict self) m)" for m
    by simp
  have "map_of bmd m =
        (case map_of metric_dict m of
           None \<Rightarrow> map_of (best_metric_dict self) m
         | Some v \<Rightarrow> ledger_after (map_of (checkpoint_all_metrics self) m)
                      (map_of (best_metric_dict self) m) v)" for m
    unfolding l [of m]
    by (auto simp: set_keys first_or_better_def ledger_after_def split: option.splits)
  with c show ?thesis
    by simp
qed

lemma counted_values_Cons:
  "counted_values runway m (c # calls) =
     (if runway \<le> call_iteration c
      then (case map_of (call_metric_dict c) m of None \<Rightarrow> [] | Some v \<Rightarrow> [v])
             @ counted_values runway m calls
      else counted_values runway m calls)"
  by (simp add: counted_values_def passed_values_def)

lemma checkpoint_calls_ledger:
  assumes "checkpoint_calls self fs calls = Inr (self', fs')"
  shows "checkpoint_runway self' = checkpoint_runway self \<and>
     checkpoint_all_metrics self' = checkpoint_all_metrics self \<and>
     (\<forall>m. map_of (best_metric_dict self') m =
        foldl (ledger_after (map_of (checkpoint_all_metrics self) m))
          (map_of (best_metric_dict self) m)
          (counted_values (checkpoint_runway self) m calls))"
  using assms
proof (induction calls arbitrary: self fs)
  case Nil
  then show ?case by (simp add: counted_values_def passed_values_def)
next
  case (Cons c calls)
  from Cons.prems obtain self1 fs1 where
    step: "checkpoint self fs (call_iteration c) (call_model c) (call_optimizer c)
             (call_lr_scheduler c) (call_metric_dict c) = Inr (self1, fs1)"
    and r: "checkpoint_calls self1 fs1 calls = Inr (self', fs')"
    by (auto split: sum.splits)
  from Cons.IH [OF r]
  have i: "checkpoint_runway self' = checkpoint_runway self1"
      "checkpoint_all_metrics self' = checkpoint_all_metrics self1"
    and l: "\<forall>m. map_of (best_metric_dict self') m =
        foldl (ledger_after (map_of (checkpoint_all_metrics self1) m))
          (map_of (best_metric_dict self1) m)
          (counted_values (checkpoint_runway self1) m calls)"
    by simp_all
  show ?case
  proof (cases "checkpoint_runway self \<le> call_iteration c")
    case False
    with step have "self1 = self"
      by (simp add: checkpoint_def)
    with False i l show ?thesis
      by (simp add: counted_values_Cons)
  next
    case True
    from checkpoint_ledger [OF step True]
    have i1: "checkpoint_runway self1 = checkpoint_runway self"
        "checkpoint_all_metrics self1 = checkpoint_all_metrics self"
      and l1: "\<forall>m. map_of (best_metric_dict self1) m =
        (case map_of (call_metric_dict c) m of
           None \<Rightarrow> map_of (best_metric_dict self) m
         | Some v \<Rightarrow> ledger_after (map_of (checkpoint_all_metrics self) m)
                      (map_of (best_metric_dict self) m) v)"
      by simp_all
    have "map_of (best_metric_dict self') m =
        foldl (ledger_after (map_of (checkpoint_all_metrics self) m))
          (map_of (best_metric_dict self) m)
          (counted_values (checkpoint_runway self) m (c # calls))" for m
      using l [rule_format, of m] l1 [rule_format, of m] i1 True
      by (simp add: counted_values_Cons split: option.splits)
    then show ?thesis
      using i i1 by simp
  qed
qed

text \<open>
  In a directory in which snapshots can be written every call returns, and so does every
  sequence of calls.
\<close>

lemma checkpoint_calls_return:
  assumes "snapshot_dir fs (checkpoint_path self)"
  shows "\<exists>self' fs'. checkpoint_calls self fs calls = Inr (self', fs')"
  using assms
proof (induction calls arbitrary: self fs)
  case Nil
  show ?case by simp
next
  case (Cons c calls)
  have "\<exists>self1 fs1. checkpoint self fs (call_iteration c) (call_model c) (call_optimizer c)
             (call_lr_scheduler c) (call_metric_dict c) = Inr (self1, fs1) \<and>
           checkpoint_path self1 = checkpoint_path self \<and> dirs fs1 = dirs fs"
  proof (cases "checkpoint_runway self \<le> call_iteration c")
    case False
    then show ?thesis
      by (simp add: checkpoint_def)
  next
    case True
    from checkpoint_after_runway [OF True Cons.prems, of "call_metric_dict c" "call_model c"
        "call_optimizer c" "call_lr_scheduler c"]
    show ?thesis
      by auto
  qed
  then obtain self1 fs1 where
    step: "checkpoint self fs (call_iteration c) (call_model c) (call_optimizer c)
             (call_lr_scheduler c) (call_metric_dict c) = Inr (self1, fs1)"
    and p: "checkpoint_path self1 = checkpoint_path self" and d: "dirs fs1 = dirs fs"
    by blast
  from Cons.prems p d have "snapshot_dir fs1 (checkpoint_path self1)"
    by (simp add: snapshot_dir_def)
  from Cons.IH [OF this] step show ?case
    by simp
qed

lemma foldl_ledger_after_max:
  "foldl (ledger_after (Some ''max'')) (Some b) vs = Some (Max (insert b (set vs)))"
proof (induction vs arbitrary: b)
  case Nil
  show ?case by simp
next
  case (Cons v vs)
  have "ledger_after (Some ''max'') (Some b) v = Some (max b v)"
    by (simp add: ledger_after_def max_def)
  moreover have "Max (insert (max b v) (set vs)) = Max (insert b (set (v # vs)))"
    by (cases "vs = []") (simp_all add: max.assoc)
  ultimately show ?case
    using Cons.IH [of "max b v"] by simp
qed

lemma foldl_ledger_after_min:
  "foldl (ledger_after (Some ''min'')) (Some b) vs = Some (Min (insert b (set vs)))"
proof (induction vs arbitrary: b)
  case Nil
  show ?case by simp
next
  case (Cons v vs)
  have "ledger_after (Some ''min'') (Some b) v = Some (min b v)"
    by (simp add: ledger_after_def min_def)
  moreover have "Min (insert (min b v) (set vs)) = Min (insert b (set (v # vs)))"
    by (cases "vs = []") (simp_all add: min.assoc)
  ultimately show ?case
    using Cons.IH [of "min b v"] by simp
qed

lemma foldl_ledger_after_first:
  "foldl (ledger_after (Some mo)) None vs = Some b \<Longrightarrow>
   vs \<noteq> [] \<and> (mo = ''max'' \<longrightarrow> b = Max (set vs)) \<and> (mo = ''min'' \<longrightarrow> b = Min (set vs))"
proof (cases vs)
  case Nil
  assume "foldl (ledger_after (Some mo)) None vs = Some b"
  with Nil show ?thesis by simp
next
  case (Cons v vs')
  assume a: "foldl (ledger_after (Some mo)) None vs = Some b"
  have "ledger_after (Some mo) None v = Some v"
    by (simp add: ledger_after_def)
  with a Cons have "foldl (ledger_after (Some mo)) (Some v) vs' = Some b"
    by simp
  then show ?thesis
    using Cons by (auto simp: foldl_ledger_after_max foldl_ledger_after_min)
qed

lemma foldl_ledger_after_untracked: "foldl (ledger_after None) entry vs = entry"
  by (induction vs) (simp_all add: ledger_after_def)

text \<open>
  C2, as amended. Metric values are numbers (the model has no NaN). After any sequence of
  \<open>checkpoint\<close> calls that return, on a checkpointer whose ledger was empty, a metric with
  a ledger entry is tracked, and its entry is the maximum (mode \<open>max\<close>) or the minimum
  (mode \<open>min\<close>) of the values passed for it in the calls with
  \<open>iteration >= checkpoint_runway\<close>; there is at least one such value.
\<close>

theorem ledger_extremum_after_runway:
  assumes "best_metric_dict self = []"
    and "checkpoint_calls self fs calls = Inr (self', fs')"
    and "map_of (best_metric_dict self') m = Some b"
  shows "counted_values (checkpoint_runway self) m calls \<noteq> [] \<and>
     map_of (checkpoint_all_metrics self) m \<noteq> None \<and>
     (map_of (checkpoint_all_metrics self) m = Some ''max'' \<longrightarrow>
        b = Max (set (counted_values (checkpoint_runway self) m calls))) \<and>
     (map_of (checkpoint_all_metrics self) m = Some ''min'' \<longrightarrow>
        b = Min (set (counted_values (checkpoint_runway self) m calls)))"
proof -
  from checkpoint_calls_ledger [OF assms(2)]
  have "map_of (best_metric_dict self') m =
        foldl (ledger_after (map_of (checkpoint_all_metrics self) m))
          (map_of (best_metric_dict self) m)
          (counted_values (checkpoint_runway self) m calls)"
    by simp
  with assms(1,3) have f: "foldl (ledger_after (map_of (checkpoint_all_metrics self) m)) None
          (counted_values (checkpoint_runway self) m calls) = Some b"
    by simp
  show ?thesis
  proof (cases "map_of (checkpoint_all_metrics self) m")
    case None
    with f show ?thesis
      by (simp add: foldl_ledger_after_untracked)
  next
    case (Some mo)
    with f have "foldl (ledger_after (Some mo)) None
          (counted_values (checkpoint_runway self) m calls) = Some b"
      by simp
    from foldl_ledger_after_first [OF this] Some show ?thesis
      by simp
  qed
qed

lemma runway_calls_run:
  "checkpoint_calls acc_checkpointer fresh_fs runway_calls = Inr runway_calls_result"
  by (simp add: eval_checkpoint runway_calls_def runway_calls_result_def acc_checkpointer_def
      fresh_fs_def some_model_def)

theorem ledger_extremum_after_runway_witness:
  "init acc_config empty_fs = (Inr acc_checkpointer, fresh_fs) \<and>
   best_metric_dict acc_checkpointer = [] \<and>
   checkpoint_calls acc_checkpointer fresh_fs runway_calls = Inr runway_calls_result \<and>
   map_of (best_metric_dict (fst runway_calls_result)) ''acc'' = Some 0.7 \<and>
   map_of (checkpoint_all_metrics acc_checkpointer) ''acc'' = Some ''max'' \<and>
   counted_values (checkpoint_runway acc_checkpointer) ''acc'' runway_calls = [0.5, 0.7] \<and>
   Max (set (counted_values (checkpoint_runway acc_checkpointer) ''acc'' runway_calls)) = 0.7"
proof -
  have a: "best_metric_dict acc_checkpointer = []"
    and m: "map_of (checkpoint_all_metrics acc_checkpointer) ''acc'' = Some ''max''"
    by (simp_all add: acc_checkpointer_def)
  have r: "checkpoint_calls acc_checkpointer fresh_fs runway_calls
      = Inr (fst runway_calls_result, snd runway_calls_result)"
    by (simp add: runway_calls_run)
  have l: "map_of (best_metric_dict (fst runway_calls_result)) ''acc'' = Some 0.7"
    by (simp add: runway_calls_result_def)
  have c: "counted_values (checkpoint_runway acc_checkpointer) ''acc'' runway_calls = [0.5, 0.7]"
    by (simp add: counted_values_def passed_values_def runway_calls_def acc_checkpointer_def)
  note ledger_extremum_after_runway [OF a r l, THEN conjunct2, THEN conjunct2, THEN conjunct1,
    THEN mp, OF m, symmetric]
  with init_acc_config a l m c runway_calls_run show ?thesis
    by (intro conjI)
qed

text \<open>
  C2, as stated, fails: values passed below the runway are not reflected. The constructor
  builds \<open>acc_checkpointer\<close>, with \<open>checkpoint_runway = 5\<close> and \<open>acc\<close> of mode \<open>max\<close>, and
  leaves the directory \<open>ckpt\<close>; from there the calls with (iteration, acc) = (4, 0.9),
  (5, 0.5), (6, 0.7) all return and leave the ledger entry 0.7, while the maximum of all
  the values passed is 0.9.
\<close>

theorem ledger_ignores_values_before_runway:
  "init acc_config empty_fs = (Inr acc_checkpointer, fresh_fs) \<and>
   best_metric_dict acc_checkpointer = [] \<and>
   map_of (checkpoint_all_metrics acc_checkpointer) ''acc'' = Some ''max'' \<and>
   checkpoint_calls acc_checkpointer fresh_fs runway_calls = Inr runway_calls_result \<and>
   map_of (best_metric_dict (fst runway_calls_result)) ''acc'' = Some 0.7 \<and>
   passed_values ''acc'' runway_calls = [0.9, 0.5, 0.7] \<and>
   Max (set (passed_values ''acc'' runway_calls)) = 0.9"
proof -
  have "passed_values ''acc'' runway_calls = [0.9, 0.5, 0.7]"
    by (simp add: passed_values_def runway_calls_def)
  moreover from this have "Max (set (passed_values ''acc'' runway_calls)) = 0.9"
    by simp
  moreover have "map_of (best_metric_dict (fst runway_calls_result)) ''acc'' = Some 0.7"
    by (simp add: runway_calls_result_def)
  moreover have "best_metric_dict acc_checkpointer = []"
    and "map_of (checkpoint_all_metrics acc_checkpointer) ''acc'' = Some ''max''"
    by (simp_all add: acc_checkpointer_def)
  ultimately show ?thesis
    using runway_calls_run init_acc_config by (intro conjI)
qed

subsection \<open>Clearing\<close>

lemmas eval_glob =
  glob_def iglob.simps path_split_def rstrip_slashes_def has_magic_def glob1_def glob0_def
  iterdir_def child_name_def isdir_def ishidden_def fnmatch_def fnmatch_from.simps bracket_def
  in_seq_def join_def keys_def Let_def List.map_filter_simps

lemma init_bracket_config: "init bracket_config stale_fs = (Inr bracket_checkpointer, bracket_fs)"
  by (simp add: init_def bracket_config_def acc_config_def stale_fs_def bracket_fs_def
      bracket_checkpointer_def acc_checkpointer_def path_exists_def makedirs_def ancestors_def
      contains_def path_of_def all_metrics_of_def Let_def)

text \<open>
  C5 fails for a checkpoint directory whose name holds a pattern character of \<open>glob\<close>:
  \<open>clear\<close> splices \<open>checkpoint_path\<close> into the pattern as it is, so \<open>glob\<close> reads the
  directory name itself as a pattern. The constructor builds \<open>bracket_checkpointer\<close> for
  the directory \<open>ck[p]t\<close>, with \<open>clear_all_checkpoints\<close> set, where another run has left the
  directory \<open>ckpt\<close>. A call of \<open>checkpoint\<close> at iteration 7 writes \<open>ck[p]t/checkpoint_7.pth\<close>
  and \<open>ck[p]t/best_model_acc.pth\<close>. The pattern \<open>ck[p]t/*.pth\<close> then matches the files of
  \<open>ckpt\<close>, and none of \<open>ck[p]t\<close>: \<open>clear\<close> returns, the two snapshot files of the
  checkpoint directory are still there, and the files of the other directory are gone.
\<close>

theorem clear_reads_path_as_pattern:
  "init bracket_config stale_fs = (Inr bracket_checkpointer, bracket_fs) \<and>
   clear_all_checkpoints bracket_checkpointer \<and>
   checkpoint bracket_checkpointer bracket_fs 7 some_model [7] None [(''acc'', 0.9)]
     = Inr (bracket_checkpointer\<lparr>checkpoint_condition_met := True,
              best_metric_dict := [(''acc'', 0.9)]\<rparr>,
            \<lparr>dirs = [''ckpt'', ''ck[p]t''],
             files = [(''ckpt/checkpoint_5.pth'',
                       \<lparr>sd_iteration = 5,
                        sd_model = \<lparr>mp_name = ''bert'', mp_module_pool = [1, 2, 3]\<rparr>,
                        sd_optimizer = [4], sd_lr_scheduler = None,
                        sd_metric_dict = [(''acc'', 0.5)]\<rparr>),
                      (''ckpt/best_model_acc.pth'',
                       \<lparr>sd_iteration = 5,
                        sd_model = \<lparr>mp_name = ''bert'', mp_module_pool = [1, 2, 3]\<rparr>,
                        sd_optimizer = [4], sd_lr_scheduler = None,
                        sd_metric_dict = [(''acc'', 0.5)]\<rparr>),
                      (''ck[p]t/checkpoint_7.pth'',
                       \<lparr>sd_iteration = 7,
                        sd_model = \<lparr>mp_name = ''bert'', mp_module_pool = [1, 2, 3]\<rparr>,
                        sd_optimizer = [7], sd_lr_scheduler = None,
                        sd_metric_dict = [(''acc'', 0.9)]\<rparr>),
                      (''ck[p]t/best_model_acc.pth'',
                       \<lparr>sd_iteration = 7,
                        sd_model = \<lparr>mp_name = ''bert'', mp_module_pool = [1, 2, 3]\<rparr>,
                        sd_optimizer = [7], sd_lr_scheduler = None,
                        sd_metric_dict = [(''acc'', 0.9)]\<rparr>)]\<rparr>) \<and>
   glob (snd (projr (checkpoint bracket_checkpointer bracket_fs 7 some_model [7] None
                       [(''acc'', 0.9)])))
     (checkpoint_path bracket_checkpointer @ ''/*.pth'')
     = [''ckpt/checkpoint_5.pth'', ''ckpt/best_model_acc.pth''] \<and>
   clear (fst (projr (checkpoint bracket_checkpointer bracket_fs 7 some_model [7] None
                        [(''acc'', 0.9)])))
     (snd (projr (checkpoint bracket_checkpointer bracket_fs 7 some_model [7] None
                    [(''acc'', 0.9)])))
     = Inr \<lparr>dirs = [''ckpt'', ''ck[p]t''],
            files = [(''ck[p]t/checkpoint_7.pth'',
                      \<lparr>sd_iteration = 7,
                       sd_model = \<lparr>mp_name = ''bert'', mp_module_pool = [1, 2, 3]\<rparr>,
                       sd_optimizer = [7], sd_lr_scheduler = None,
                       sd_metric_dict = [(''acc'', 0.9)]\<rparr>),
                     (''ck[p]t/best_model_acc.pth'',
                      \<lparr>sd_iteration = 7,
                       sd_model = \<lparr>mp_name = ''bert'', mp_module_pool = [1, 2, 3]\<rparr>,
                       sd_optimizer = [7], sd_lr_scheduler = None,
                       sd_metric_dict = [(''acc'', 0.9)]\<rparr>)]\<rparr>"
proof -
  let ?sd5 = "\<lparr>sd_iteration = 5,
      sd_model = \<lparr>mp_name = ''bert'', mp_module_pool = [1, 2, 3]\<rparr>,
      sd_optimizer = [4], sd_lr_scheduler = None, sd_metric_dict = [(''acc'', 0.5)]\<rparr>"
  let ?sd7 = "\<lparr>sd_iteration = 7,
      sd_model = \<lparr>mp_name = ''bert'', mp_module_pool = [1, 2, 3]\<rparr>,
      sd_optimizer = [7], sd_lr_scheduler = None, sd_metric_dict = [(''acc'', 0.9)]\<rparr>"
  let ?self = "bracket_checkpointer\<lparr>checkpoint_condition_met := True,
      best_metric_dict := [(''acc'', 0.9)]\<rparr>"
  let ?fs = "\<lparr>dirs = [''ckpt'', ''ck[p]t''],
      files = [(''ckpt/checkpoint_5.pth'', ?sd5), (''ckpt/best_model_acc.pth'', ?sd5),
               (''ck[p]t/checkpoint_7.pth'', ?sd7), (''ck[p]t/best_model_acc.pth'', ?sd7)]\<rparr>"
  have c: "checkpoint bracket_checkpointer bracket_fs 7 some_model [7] None [(''acc'', 0.9)]
      = Inr (?self, ?fs)"
    by (simp add: eval_checkpoint bracket_checkpointer_def acc_checkpointer_def bracket_fs_def
        stale_fs_def some_model_def)
  have g: "glob ?fs ''ck[p]t/*.pth'' = [''ckpt/checkpoint_5.pth'', ''ckpt/best_model_acc.pth'']"
    by (simp add: eval_glob)
  have p: "checkpoint_path bracket_checkpointer @ ''/*.pth'' = ''ck[p]t/*.pth''"
    and a: "clear_all_checkpoints bracket_checkpointer"
    by (simp_all add: bracket_checkpointer_def)
  have "clear ?self ?fs = remove_all ?fs (glob ?fs ''ck[p]t/*.pth'')"
    by (simp add: clear_def bracket_checkpointer_def)
  also have "\<dots> = Inr \<lparr>dirs = [''ckpt'', ''ck[p]t''],
      files = [(''ck[p]t/checkpoint_7.pth'', ?sd7), (''ck[p]t/best_model_acc.pth'', ?sd7)]\<rparr>"
    unfolding g by (simp add: os_remove_def contains_def)
  finally have r: "clear ?self ?fs = Inr \<lparr>dirs = [''ckpt'', ''ck[p]t''],
      files = [(''ck[p]t/checkpoint_7.pth'', ?sd7), (''ck[p]t/best_model_acc.pth'', ?sd7)]\<rparr>" .
  show ?thesis
    unfolding c p sum.sel fst_conv snd_conv using init_bracket_config a c g r
    by (intro conjI) simp_all
qed

text \<open>
  A directory that the pattern matches stops \<open>clear\<close>: \<open>os.remove\<close> raises for it.
\<close>

lemma clear_raises_on_directory:
  "glob subdir_fs ''ckpt/*.pth'' = [''ckpt/checkpoint_5.pth'', ''ckpt/sub.pth''] \<and>
   clear (acc_checkpointer\<lparr>clear_all_checkpoints := True\<rparr>) subdir_fs = Inl IsADirectoryError"
proof -
  have g: "glob subdir_fs ''ckpt/*.pth'' = [''ckpt/checkpoint_5.pth'', ''ckpt/sub.pth'']"
    by (simp add: eval_glob subdir_fs_def)
  have "clear (acc_checkpointer\<lparr>clear_all_checkpoints := True\<rparr>) subdir_fs
      = remove_all subdir_fs (glob subdir_fs ''ckpt/*.pth'')"
    by (simp add: clear_def acc_checkpointer_def)
  also have "\<dots> = Inl IsADirectoryError"
    unfolding g by (simp add: os_remove_def contains_def subdir_fs_def)
  finally show ?thesis
    using g by simp
qed

text \<open>
  A pattern without pattern characters matches itself only; \<open>pre*suf\<close>, with \<open>pre\<close> and
  \<open>suf\<close> free of pattern characters, matches the names that start with \<open>pre\<close> and go on
  to end with \<open>suf\<close>.
\<close>

lemma fnmatch_from_literal:
  "\<not> has_magic lit \<Longrightarrow> fnmatch_from lit nm \<longleftrightarrow> nm = lit"
proof (induction lit arbitrary: nm)
  case Nil
  show ?case by (simp add: fnmatch_from.simps)
next
  case (Cons c lit)
  then have c: "c \<noteq> CHR ''*''" "c \<noteq> CHR ''?''" "c \<noteq> CHR ''[''" and l: "\<not> has_magic lit"
    by (auto simp: has_magic_def)
  show ?case
    using Cons.IH [OF l] c by (cases nm) (auto simp: fnmatch_from.simps(2) [of c lit])
qed

lemma fnmatch_from_star:
  "\<not> has_magic lit \<Longrightarrow> fnmatch_from (CHR ''*'' # lit) nm \<longleftrightarrow> (\<exists>mid. nm = mid @ lit)"
proof (induction nm)
  case Nil
  then show ?case
    by (simp add: fnmatch_from.simps(2) [of "CHR ''*''" lit] fnmatch_from_literal eq_commute)
next
  case (Cons ch nm)
  have "fnmatch_from (CHR ''*'' # lit) (ch # nm)
      \<longleftrightarrow> fnmatch_from lit (ch # nm) \<or> fnmatch_from (CHR ''*'' # lit) nm"
    by (simp add: fnmatch_from.simps(2) [of "CHR ''*''" lit "ch # nm"])
  also have "\<dots> \<longleftrightarrow> ch # nm = lit \<or> (\<exists>mid. nm = mid @ lit)"
    using Cons by (simp add: fnmatch_from_literal)
  also have "\<dots> \<longleftrightarrow> (\<exists>mid. ch # nm = mid @ lit)"
    by (auto simp: Cons_eq_append_conv)
  finally show ?case .
qed

lemma fnmatch_from_pre_star:
  "\<not> has_magic pre \<Longrightarrow> \<not> has_magic suf \<Longrightarrow>
   fnmatch_from (pre @ CHR ''*'' # suf) nm \<longleftrightarrow> (\<exists>mid. nm = pre @ mid @ suf)"
proof (induction pre arbitrary: nm)
  case Nil
  then show ?case by (simp add: fnmatch_from_star)
next
  case (Cons c pre)
  then have c: "c \<noteq> CHR ''*''" "c \<noteq> CHR ''?''" "c \<noteq> CHR ''[''" and l: "\<not> has_magic pre"
    by (auto simp: has_magic_def)
  show ?case
    using Cons.IH [OF l Cons.prems(2)] c
    by (cases nm) (auto simp: fnmatch_from.simps(2) [of c "pre @ CHR ''*'' # suf"])
qed

text \<open>
  The pattern \<open>path/pat\<close>, for a directory name \<open>path\<close> without pattern characters that
  does not end with a slash.
\<close>

lemma path_split_entry:
  assumes "path \<noteq> []" and "last path \<noteq> CHR ''/''" and "CHR ''/'' \<notin> set nm"
  shows "path_split (path @ ''/'' @ nm) = (path, nm)"
proof -
  have "takeWhile (\<lambda>ch. ch \<noteq> CHR ''/'') (rev nm @ CHR ''/'' # rev path)
      = rev nm @ takeWhile (\<lambda>ch. ch \<noteq> CHR ''/'') (CHR ''/'' # rev path)"
    using assms(3) by (intro takeWhile_append2) auto
  then have t: "takeWhile (\<lambda>ch. ch \<noteq> CHR ''/'') (rev nm @ CHR ''/'' # rev path) = rev nm"
    by simp
  have "dropWhile (\<lambda>ch. ch = CHR ''/'') (rev path) = rev path"
    using assms(1,2) by (simp add: dropWhile_eq_self_iff hd_rev)
  then have r: "rstrip_slashes (path @ ''/'') = path"
    by (simp add: rstrip_slashes_def)
  have "last path \<in> set path"
    using assms(1) by simp
  with assms(2) have e: "\<exists>ch \<in> set (path @ ''/''). ch \<noteq> CHR ''/''"
    by auto
  show ?thesis
    unfolding path_split_def Let_def using e r by (simp add: t)
qed

lemma child_name_iff:
  assumes "path \<noteq> []" and "last path \<noteq> CHR ''/''"
  shows "child_name path p = Some nm \<longleftrightarrow> p = path @ ''/'' @ nm \<and> nm \<noteq> [] \<and> CHR ''/'' \<notin> set nm"
proof
  assume "child_name path p = Some nm"
  with assms have t: "take (length path + 1) p = path @ ''/''"
    and n: "nm = drop (length path + 1) p"
    and ok: "nm \<noteq> [] \<and> CHR ''/'' \<notin> set nm"
    by (auto simp: child_name_def Let_def split: if_splits)
  have "p = take (length path + 1) p @ drop (length path + 1) p"
    by simp
  with t n have "p = (path @ ''/'') @ nm"
    by metis
  with ok show "p = path @ ''/'' @ nm \<and> nm \<noteq> [] \<and> CHR ''/'' \<notin> set nm"
    by simp
next
  assume "p = path @ ''/'' @ nm \<and> nm \<noteq> [] \<and> CHR ''/'' \<notin> set nm"
  with assms show "child_name path p = Some nm"
    by (simp add: child_name_def Let_def)
qed

lemma in_set_map_filter:
  "y \<in> set (List.map_filter f xs) \<longleftrightarrow> (\<exists>x \<in> set xs. f x = Some y)"
  by (induction xs) (auto simp: List.map_filter_simps split: option.splits)

lemma distinct_map_filter_inj:
  assumes "distinct xs" and "\<And>x y z. f x = Some z \<Longrightarrow> f y = Some z \<Longrightarrow> x = y"
  shows "distinct (List.map_filter f xs)"
  using assms(1)
proof (induction xs)
  case Nil
  show ?case by (simp add: List.map_filter_simps)
next
  case (Cons x xs)
  show ?case
  proof (cases "f x")
    case None
    with Cons show ?thesis by (simp add: List.map_filter_simps)
  next
    case (Some z)
    have "z \<notin> set (List.map_filter f xs)"
    proof
      assume "z \<in> set (List.map_filter f xs)"
      then obtain y where "y \<in> set xs" and "f y = Some z"
        by (auto simp: in_set_map_filter)
      with Some assms(2) [of x z y] Cons.prems show False
        by auto
    qed
    with Some Cons show ?thesis by (simp add: List.map_filter_simps)
  qed
qed

lemma glob_plain_directory:
  assumes "path \<noteq> []" and "last path \<noteq> CHR ''/''" and "\<not> has_magic path"
    and "isdir fs path"
    and "\<not> has_magic pre" and "\<not> has_magic suf" and "CHR ''/'' \<notin> set (pre @ suf)"
  shows "distinct (glob fs (path @ ''/'' @ pre @ ''*'' @ suf))"
    and "p \<in> set (glob fs (path @ ''/'' @ pre @ ''*'' @ suf)) \<longleftrightarrow>
      (p \<in> set (keys (files fs)) \<or> p \<in> set (dirs fs)) \<and>
      (\<exists>mid. p = path @ ''/'' @ pre @ mid @ suf \<and> pre @ mid @ suf \<noteq> [] \<and>
         CHR ''/'' \<notin> set mid \<and>
         (ishidden (pre @ ''*'' @ suf) \<or> \<not> ishidden (pre @ mid @ suf)))"
proof -
  let ?pat = "pre @ ''*'' @ suf"
  let ?names = "filter (\<lambda>nm. (ishidden ?pat \<or> \<not> ishidden nm) \<and> fnmatch nm ?pat)
      (iterdir fs path False)"
  have np: "CHR ''/'' \<notin> set ?pat"
    using assms(7) by simp
  have m: "has_magic ?pat" "has_magic (path @ ''/'' @ ?pat)"
    by (simp_all add: has_magic_def)
  have g: "glob fs (path @ ''/'' @ ?pat) = map (join path) ?names"
    unfolding glob_def
    by (subst iglob.simps)
      (simp add: path_split_entry [OF assms(1,2) np] m assms(1,3) glob1_def Let_def
        del: append_assoc append.simps)
  have names: "nm \<in> set (iterdir fs path False) \<longleftrightarrow>
      nm \<noteq> [] \<and> CHR ''/'' \<notin> set nm \<and>
      (path @ ''/'' @ nm \<in> set (keys (files fs)) \<or> path @ ''/'' @ nm \<in> set (dirs fs))" for nm
    using assms(4) by (auto simp: iterdir_def in_set_map_filter child_name_iff [OF assms(1,2)])
  have dn: "distinct (iterdir fs path False)"
    unfolding iterdir_def using assms(4)
    by (auto simp: child_name_iff [OF assms(1,2)] intro!: distinct_map_filter_inj)
  have j: "join path nm = path @ ''/'' @ nm" if "nm \<in> set (iterdir fs path False)" for nm
  proof -
    from that have "nm \<noteq> []" and "CHR ''/'' \<notin> set nm"
      by (simp_all add: names)
    then have "hd nm \<noteq> CHR ''/''"
      by (cases nm) auto
    with assms(1,2) \<open>nm \<noteq> []\<close> show ?thesis
      by (simp add: join_def)
  qed
  have g': "glob fs (path @ ''/'' @ ?pat) = map (\<lambda>nm. path @ ''/'' @ nm) ?names"
    unfolding g by (rule map_cong) (simp_all add: j)
  have "inj_on (\<lambda>nm. path @ ''/'' @ nm) (set ?names)"
    by (rule inj_onI) simp
  with dn show "distinct (glob fs (path @ ''/'' @ pre @ ''*'' @ suf))"
    unfolding g' by (simp add: distinct_map)
  have f: "fnmatch nm (pre @ CHR ''*'' # suf) \<longleftrightarrow> (\<exists>mid. nm = pre @ mid @ suf)" for nm
    using fnmatch_from_pre_star [OF assms(5,6), of nm] by (simp add: fnmatch_def)
  show "p \<in> set (glob fs (path @ ''/'' @ pre @ ''*'' @ suf)) \<longleftrightarrow>
      (p \<in> set (keys (files fs)) \<or> p \<in> set (dirs fs)) \<and>
      (\<exists>mid. p = path @ ''/'' @ pre @ mid @ suf \<and> pre @ mid @ suf \<noteq> [] \<and>
         CHR ''/'' \<notin> set mid \<and>
         (ishidden (pre @ ''*'' @ suf) \<or> \<not> ishidden (pre @ mid @ suf)))"
  proof
    assume "p \<in> set (glob fs (path @ ''/'' @ pre @ ''*'' @ suf))"
    then obtain nm where p: "p = path @ ''/'' @ nm" and n: "nm \<in> set (iterdir fs path False)"
      and h: "ishidden (pre @ ''*'' @ suf) \<or> \<not> ishidden nm" and "fnmatch nm (pre @ CHR ''*'' # suf)"
      unfolding g' by auto
    then obtain mid where mid: "nm = pre @ mid @ suf"
      unfolding f by blast
    from n have "nm \<noteq> []" and "CHR ''/'' \<notin> set nm"
      and "path @ ''/'' @ nm \<in> set (keys (files fs)) \<or> path @ ''/'' @ nm \<in> set (dirs fs)"
      unfolding names by simp_all
    with p h mid show "(p \<in> set (keys (files fs)) \<or> p \<in> set (dirs fs)) \<and>
      (\<exists>mid. p = path @ ''/'' @ pre @ mid @ suf \<and> pre @ mid @ suf \<noteq> [] \<and>
         CHR ''/'' \<notin> set mid \<and>
         (ishidden (pre @ ''*'' @ suf) \<or> \<not> ishidden (pre @ mid @ suf)))"
      by (intro conjI exI [of _ mid]) simp_all
  next
    assume "(p \<in> set (keys (files fs)) \<or> p \<in> set (dirs fs)) \<and>
      (\<exists>mid. p = path @ ''/'' @ pre @ mid @ suf \<and> pre @ mid @ suf \<noteq> [] \<and>
         CHR ''/'' \<notin> set mid \<and>
         (ishidden (pre @ ''*'' @ suf) \<or> \<not> ishidden (pre @ mid @ suf)))"
    then obtain mid where e: "p \<in> set (keys (files fs)) \<or> p \<in> set (dirs fs)"
      and p: "p = path @ ''/'' @ pre @ mid @ suf" and ne: "pre @ mid @ suf \<noteq> []"
      and ns: "CHR ''/'' \<notin> set mid"
      and h: "ishidden (pre @ ''*'' @ suf) \<or> \<not> ishidden (pre @ mid @ suf)"
      by blast
    have "pre @ mid @ suf \<in> set (iterdir fs path False)"
      unfolding names using e p ne ns assms(7) by simp
    moreover have "fnmatch (pre @ mid @ suf) (pre @ CHR ''*'' # suf)"
      unfolding f by blast
    ultimately have "pre @ mid @ suf \<in> set ?names"
      using h by simp
    then have "path @ ''/'' @ (pre @ mid @ suf) \<in> set (glob fs (path @ ''/'' @ pre @ ''*'' @ suf))"
      unfolding g' set_map by (rule imageI)
    with p show "p \<in> set (glob fs (path @ ''/'' @ pre @ ''*'' @ suf))"
      by simp
  qed
qed

lemma map_of_delitem: "map_of (delitem d k) = (map_of d)(k := None)"
  by (induction d) (auto simp: fun_eq_iff)

lemma remove_all_result:
  assumes "distinct ps" and "\<forall>p \<in> set ps. map_of (files fs) p \<noteq> None"
  shows "\<exists>fs'. remove_all fs ps = Inr fs' \<and> dirs fs' = dirs fs \<and>
           (\<forall>p. map_of (files fs') p = (if p \<in> set ps then None else map_of (files fs) p))"
  using assms
proof (induction ps arbitrary: fs)
  case Nil
  then show ?case by simp
next
  case (Cons q qs)
  let ?fs1 = "fs\<lparr>files := delitem (files fs) q\<rparr>"
  have r: "os_remove fs q = Inr ?fs1"
    using Cons.prems(2) by (simp add: os_remove_def contains_def)
  have d: "distinct qs" and nq: "q \<notin> set qs"
    using Cons.prems(1) by simp_all
  have "\<forall>p \<in> set qs. map_of (files ?fs1) p \<noteq> None"
    using Cons.prems(2) nq by (auto simp: map_of_delitem)
  from Cons.IH [OF d this] obtain fs' where
    a: "remove_all ?fs1 qs = Inr fs'" and b: "dirs fs' = dirs ?fs1"
    and c: "\<forall>p. map_of (files fs') p = (if p \<in> set qs then None else map_of (files ?fs1) p)"
    by blast
  have "map_of (files fs') p = (if p \<in> set (q # qs) then None else map_of (files fs) p)" for p
    using c by (simp add: map_of_delitem)
  then show ?case
    using r a b by simp
qed

lemma remove_globbed:
  assumes "path \<noteq> []" and "last path \<noteq> CHR ''/''" and "\<not> has_magic path"
    and "snapshot_dir fs path" and "\<not> has_magic pre" and "CHR ''/'' \<notin> set pre"
  shows "\<exists>fs'. remove_all fs (glob fs (path @ ''/'' @ pre @ ''*'' @ ''.pth'')) = Inr fs' \<and>
     dirs fs' = dirs fs \<and>
     (\<forall>p. map_of (files fs') p =
        (if \<exists>mid. p = path @ ''/'' @ pre @ mid @ ''.pth'' \<and> CHR ''/'' \<notin> set mid \<and>
              (ishidden (pre @ ''*'' @ ''.pth'') \<or> \<not> ishidden (pre @ mid @ ''.pth''))
         then None else map_of (files fs) p))"
proof -
  let ?g = "glob fs (path @ ''/'' @ pre @ ''*'' @ ''.pth'')"
  have i: "isdir fs path"
    using assms(4) by (simp add: snapshot_dir_def isdir_def)
  have s: "\<not> has_magic ''.pth''" "CHR ''/'' \<notin> set (pre @ ''.pth'')"
    using assms(6) by (simp_all add: has_magic_def)
  note g = glob_plain_directory [OF assms(1,2,3) i assms(5) s]
  have m: "p \<in> set ?g \<longleftrightarrow>
      (p \<in> set (keys (files fs)) \<or> p \<in> set (dirs fs)) \<and>
      (\<exists>mid. p = path @ ''/'' @ pre @ mid @ ''.pth'' \<and> CHR ''/'' \<notin> set mid \<and>
         (ishidden (pre @ ''*'' @ ''.pth'') \<or> \<not> ishidden (pre @ mid @ ''.pth'')))" for p
    using g(2) [of p] by simp
  have nd: "p \<notin> set (dirs fs)"
    if "p = path @ ''/'' @ pre @ mid @ ''.pth''" and "CHR ''/'' \<notin> set mid" for p mid
  proof -
    have "CHR ''/'' \<notin> set (pre @ mid)"
      using assms(6) that(2) by simp
    with assms(4) have "path @ ''/'' @ (pre @ mid) @ ''.pth'' \<notin> set (dirs fs)"
      unfolding snapshot_dir_def by blast
    with that(1) show ?thesis
      by simp
  qed
  have "\<forall>p \<in> set ?g. map_of (files fs) p \<noteq> None"
  proof
    fix p
    assume "p \<in> set ?g"
    then obtain mid where e: "p \<in> set (keys (files fs)) \<or> p \<in> set (dirs fs)"
      and p: "p = path @ ''/'' @ pre @ mid @ ''.pth''" and n: "CHR ''/'' \<notin> set mid"
      unfolding m by blast
    from nd [OF p n] e have "p \<in> set (keys (files fs))"
      by simp
    then show "map_of (files fs) p \<noteq> None"
      by (simp add: set_keys domIff)
  qed
  from remove_all_result [OF g(1) this] obtain fs' where
    r: "remove_all fs ?g = Inr fs'" and d: "dirs fs' = dirs fs"
    and f: "\<forall>p. map_of (files fs') p = (if p \<in> set ?g then None else map_of (files fs) p)"
    by blast
  have "map_of (files fs') p =
        (if \<exists>mid. p = path @ ''/'' @ pre @ mid @ ''.pth'' \<and> CHR ''/'' \<notin> set mid \<and>
              (ishidden (pre @ ''*'' @ ''.pth'') \<or> \<not> ishidden (pre @ mid @ ''.pth''))
         then None else map_of (files fs) p)" for p
  proof (cases "p \<in> set ?g")
    case True
    with f show ?thesis
      unfolding m by simp
  next
    case False
    show ?thesis
    proof (cases "\<exists>mid. p = path @ ''/'' @ pre @ mid @ ''.pth'' \<and> CHR ''/'' \<notin> set mid \<and>
              (ishidden (pre @ ''*'' @ ''.pth'') \<or> \<not> ishidden (pre @ mid @ ''.pth''))")
      case True
      with False have "p \<notin> set (keys (files fs))"
        unfolding m by blast
      then have "map_of (files fs) p = None"
        by (simp add: set_keys domIff)
      moreover from f False have "map_of (files fs') p = map_of (files fs) p"
        by simp
      ultimately show ?thesis
        unfolding if_P [OF True] by simp
    next
      case no: False
      from f False have "map_of (files fs') p = map_of (files fs) p"
        by simp
      then show ?thesis
        unfolding if_not_P [OF no] .
    qed
  qed
  with r d show ?thesis
    by blast
qed

lemma checkpoint_file_is_checkpoint_entry: "checkpoint_entry path (checkpoint_file path iteration)"
  unfolding checkpoint_entry_def checkpoint_file_def
  using no_slash_in_str_int by blast

lemma checkpoint_file_is_pth_entry: "pth_entry path (checkpoint_file path iteration)"
  unfolding pth_entry_def checkpoint_file_def
  by (rule exI [of _ "''checkpoint_'' @ str_int iteration"])
    (simp add: no_slash_in_str_int ishidden_def)

lemma best_model_file_is_pth_entry: "pth_entry path (best_model_file path metric)"
  unfolding pth_entry_def best_model_file_def
  by (rule exI [of _ "''best_model_'' @ replace metric (CHR ''/'') (CHR ''_'')"])
    (simp add: no_slash_in_replace ishidden_def)

lemma best_model_file_no_checkpoint_entry: "\<not> checkpoint_entry path (best_model_file path metric)"
  by (simp add: checkpoint_entry_def best_model_file_def)

text \<open>
  Where \<open>clear\<close> does what its flags say: in a checkpoint directory whose name has no
  pattern character and does not end with a slash, that exists and holds no directory
  named \<open><stem>.pth\<close>. There \<open>clear\<close> returns and leaves the directories as they are. With
  \<open>clear_all_checkpoints\<close> set (whatever \<open>clear_intermediate_checkpoints\<close> is) it removes
  exactly the entries \<open><stem>.pth\<close> of the directory, among them every
  \<open>checkpoint_<iteration>.pth\<close> and every \<open>best_model_<metric>.pth\<close>; with only
  \<open>clear_intermediate_checkpoints\<close> set it removes exactly the entries
  \<open>checkpoint_<stem>.pth\<close>, and no \<open>best_model_<metric>.pth\<close> is among them; with neither
  flag set it changes nothing.
\<close>

lemma clear_plain_directory:
  assumes "checkpoint_path self \<noteq> []" and "last (checkpoint_path self) \<noteq> CHR ''/''"
    and "\<not> has_magic (checkpoint_path self)" and "snapshot_dir fs (checkpoint_path self)"
  shows "\<exists>fs'. clear self fs = Inr fs' \<and> dirs fs' = dirs fs \<and>
     (\<forall>p. map_of (files fs') p =
        (if clear_all_checkpoints self \<and> pth_entry (checkpoint_path self) p \<or>
            \<not> clear_all_checkpoints self \<and> clear_intermediate_checkpoints self \<and>
              checkpoint_entry (checkpoint_path self) p
         then None else map_of (files fs) p))"
proof -
  let ?path = "checkpoint_path self"
  consider (all) "clear_all_checkpoints self"
    | (intermediate) "\<not> clear_all_checkpoints self" "clear_intermediate_checkpoints self"
    | (none) "\<not> clear_all_checkpoints self" "\<not> clear_intermediate_checkpoints self"
    by blast
  then show ?thesis
  proof cases
    case all
    have e: "pth_entry ?path p \<longleftrightarrow>
        (\<exists>mid. p = ?path @ ''/'' @ [] @ mid @ ''.pth'' \<and> CHR ''/'' \<notin> set mid \<and>
              (ishidden ([] @ ''*'' @ ''.pth'') \<or> \<not> ishidden ([] @ mid @ ''.pth'')))" for p
      by (simp add: pth_entry_def ishidden_def)
    have "\<not> has_magic []" and "CHR ''/'' \<notin> set []"
      by (simp_all add: has_magic_def)
    from remove_globbed [OF assms this] obtain fs' where
      "remove_all fs (glob fs (?path @ ''/'' @ [] @ ''*'' @ ''.pth'')) = Inr fs'"
      and "dirs fs' = dirs fs"
      and "\<forall>p. map_of (files fs') p = (if pth_entry ?path p then None else map_of (files fs) p)"
      unfolding e by blast
    with all show ?thesis
      by (simp add: clear_def)
  next
    case intermediate
    have e: "checkpoint_entry ?path p \<longleftrightarrow>
        (\<exists>mid. p = ?path @ ''/'' @ ''checkpoint_'' @ mid @ ''.pth'' \<and> CHR ''/'' \<notin> set mid \<and>
              (ishidden (''checkpoint_'' @ ''*'' @ ''.pth'')
               \<or> \<not> ishidden (''checkpoint_'' @ mid @ ''.pth'')))" for p
      by (simp add: checkpoint_entry_def ishidden_def)
    have "\<not> has_magic ''checkpoint_''" and "CHR ''/'' \<notin> set ''checkpoint_''"
      by (simp_all add: has_magic_def)
    from remove_globbed [OF assms this] obtain fs' where
      "remove_all fs (glob fs (?path @ ''/'' @ ''checkpoint_'' @ ''*'' @ ''.pth'')) = Inr fs'"
      and "dirs fs' = dirs fs"
      and "\<forall>p. map_of (files fs') p =
             (if checkpoint_entry ?path p then None else map_of (files fs) p)"
      unfolding e by blast
    with intermediate show ?thesis
      by (simp add: clear_def)
  next
    case none
    then show ?thesis
      by (simp add: clear_def)
  qed
qed

text \<open>
  So it is in the directory \<open>ckpt\<close> with a snapshot and a best-model copy.
\<close>

lemma clear_stale_fs:
  "clear (stale_checkpointer\<lparr>clear_all_checkpoints := True,
       clear_intermediate_checkpoints := True\<rparr>) stale_fs
     = Inr \<lparr>dirs = [''ckpt''], files = []\<rparr> \<and>
   clear (stale_checkpointer\<lparr>clear_intermediate_checkpoints := True\<rparr>) stale_fs
     = Inr \<lparr>dirs = [''ckpt''],
            files = [(''ckpt/best_model_acc.pth'',
                      \<lparr>sd_iteration = 5,
                       sd_model = \<lparr>mp_name = ''bert'', mp_module_pool = [1, 2, 3]\<rparr>,
                       sd_optimizer = [4], sd_lr_scheduler = None,
                       sd_metric_dict = [(''acc'', 0.5)]\<rparr>)]\<rparr> \<and>
   clear stale_checkpointer stale_fs = Inr stale_fs"
proof -
  have g: "glob stale_fs ''ckpt/*.pth'' = [''ckpt/checkpoint_5.pth'', ''ckpt/best_model_acc.pth'']"
    "glob stale_fs ''ckpt/checkpoint_*.pth'' = [''ckpt/checkpoint_5.pth'']"
    by (simp_all add: eval_glob stale_fs_def)
  have "clear (stale_checkpointer\<lparr>clear_all_checkpoints := True,
       clear_intermediate_checkpoints := True\<rparr>) stale_fs
      = remove_all stale_fs (glob stale_fs ''ckpt/*.pth'')"
    by (simp add: clear_def stale_checkpointer_def acc_checkpointer_def)
  also have "\<dots> = Inr \<lparr>dirs = [''ckpt''], files = []\<rparr>"
    unfolding g by (simp add: os_remove_def contains_def stale_fs_def)
  finally have a: "clear (stale_checkpointer\<lparr>clear_all_checkpoints := True,
       clear_intermediate_checkpoints := True\<rparr>) stale_fs = Inr \<lparr>dirs = [''ckpt''], files = []\<rparr>" .
  have "clear (stale_checkpointer\<lparr>clear_intermediate_checkpoints := True\<rparr>) stale_fs
      = remove_all stale_fs (glob stale_fs ''ckpt/checkpoint_*.pth'')"
    by (simp add: clear_def stale_checkpointer_def acc_checkpointer_def)
  also have "\<dots> = Inr \<lparr>dirs = [''ckpt''],
            files = [(''ckpt/best_model_acc.pth'',
                      \<lparr>sd_iteration = 5,
                       sd_model = \<lparr>mp_name = ''bert'', mp_module_pool = [1, 2, 3]\<rparr>,
                       sd_optimizer = [4], sd_lr_scheduler = None,
                       sd_metric_dict = [(''acc'', 0.5)]\<rparr>)]\<rparr>"
    unfolding g by (simp add: os_remove_def contains_def stale_fs_def)
  finally have b: "clear (stale_checkpointer\<lparr>clear_intermediate_checkpoints := True\<rparr>) stale_fs
     = Inr \<lparr>dirs = [''ckpt''],
            files = [(''ckpt/best_model_acc.pth'',
                      \<lparr>sd_iteration = 5,
                       sd_model = \<lparr>mp_name = ''bert'', mp_module_pool = [1, 2, 3]\<rparr>,
                       sd_optimizer = [4], sd_lr_scheduler = None,
                       sd_metric_dict = [(''acc'', 0.5)]\<rparr>)]\<rparr>" .
  have c: "clear stale_checkpointer stale_fs = Inr stale_fs"
    by (simp add: clear_def stale_checkpointer_def acc_checkpointer_def)
  from a b c show ?thesis
    by (intro conjI)
qed

subsection \<open>Loading the best model\<close>

text \<open>
  C6. When the first key of \<open>checkpoint_metric\<close> has no entry in the ledger,
  \<open>load_best_model\<close> returns the model it was given, name and parameters untouched,
  whatever the file system holds: nothing is read from it (on a file system without the
  best-model file a read would raise).
\<close>

theorem load_best_model_no_entry:
  "checkpoint_metric self = Some cm \<Longrightarrow> keys cm = metric # rest \<Longrightarrow>
   \<not> contains (best_metric_dict self) metric \<Longrightarrow>
   load_best_model self fs mdl = Inr mdl"
  by (simp add: load_best_model_def)

theorem load_best_model_no_entry_witness:
  "checkpoint_metric acc_checkpointer = Some [(''acc'', ''max'')] \<and>
   keys [(''acc'', ''max'')] = ''acc'' # [] \<and>
   \<not> contains (best_metric_dict acc_checkpointer) ''acc'' \<and>
   load_best_model acc_checkpointer empty_fs some_model = Inr some_model"
  using load_best_model_no_entry
    [of acc_checkpointer "[(''acc'', ''max'')]" "''acc''" "[]" empty_fs some_model]
  by (simp add: acc_checkpointer_def keys_def contains_def)

text \<open>
  C10. With \<open>checkpoint_metric\<close> \<open>None\<close> or empty, \<open>load_best_model\<close> raises instead of
  returning the model, whatever the ledger holds: \<open>None\<close> has no \<open>keys\<close>
  (\<open>AttributeError\<close>), and the key list of an empty dictionary has no first element
  (\<open>IndexError\<close>).
\<close>

theorem load_best_model_no_checkpoint_metric:
  "(checkpoint_metric self = None \<longrightarrow> load_best_model self fs mdl = Inl AttributeError) \<and>
   (checkpoint_metric self = Some [] \<longrightarrow> load_best_model self fs mdl = Inl IndexError)"
  by (simp add: load_best_model_def keys_def)

theorem load_best_model_no_checkpoint_metric_witness:
  "load_best_model (acc_checkpointer\<lparr>checkpoint_metric := None\<rparr>) empty_fs some_model
     = Inl AttributeError \<and>
   load_best_model (acc_checkpointer\<lparr>checkpoint_metric := Some [],
       best_metric_dict := [(''acc'', 0.9)]\<rparr>) empty_fs some_model
     = Inl IndexError"
  using load_best_model_no_checkpoint_metric
      [of "acc_checkpointer\<lparr>checkpoint_metric := None\<rparr>" empty_fs some_model]
    load_best_model_no_checkpoint_metric
      [of "acc_checkpointer\<lparr>checkpoint_metric := Some [],
             best_metric_dict := [(''acc'', 0.9)]\<rparr>" empty_fs some_model]
  by simp

section \<open>Properties of the sequential scheduler\<close>

lemma get_batches_Nil: "get_batches [] = ([], None)"
  by (simp add: get_batches_def)

lemma get_batches_Cons:
  "get_batches (d # ds) =
     (case get_batches_inner (task_to_label_dict d) (data_name d) (len d) (batches d) (split d) (uid d) of
        (out, Some e) \<Rightarrow> (out, Some e)
      | (out, None) \<Rightarrow> (case get_batches ds of (out', r) \<Rightarrow> (out @ out', r)))"
  unfolding get_batches_def Let_def by simp

lemma get_batches_inner_complete:
  assumes "length data_loader = n"
    and "\<forall>b \<in> set data_loader. uids_of uid_name b \<noteq> None"
  shows "\<exists>out. get_batches_inner ttl dn n data_loader sp uid_name = (out, None) \<and>
           map yielded_batch out = data_loader \<and>
           map yielded_meta out = replicate n (ttl, dn, sp) \<and>
           map (\<lambda>y. Some (yielded_uids y)) out = map (uids_of uid_name) data_loader"
  using assms
proof (induction data_loader arbitrary: n)
  case Nil
  then show ?case by simp
next
  case (Cons b bs)
  obtain X Y where b: "b = (X, Y)" by (cases b)
  from Cons.prems(1) obtain k where n: "n = Suc k" and k: "length bs = k"
    by (cases n) simp_all
  from Cons.prems(2) b obtain u where u: "map_of X uid_name = Some u"
    by (auto simp: uids_of_def)
  have rest: "\<forall>b \<in> set bs. uids_of uid_name b \<noteq> None"
    using Cons.prems(2) by simp
  from Cons.IH [OF k rest] obtain out where
    o: "get_batches_inner ttl dn k bs sp uid_name = (out, None)"
    and o1: "map yielded_batch out = bs"
    and o2: "map yielded_meta out = replicate k (ttl, dn, sp)"
    and o3: "map (\<lambda>y. Some (yielded_uids y)) out = map (uids_of uid_name) bs"
    by blast
  have "get_batches_inner ttl dn n (b # bs) sp uid_name = ((u, X, Y, ttl, dn, sp) # out, None)"
    using b n u o by simp
  then show ?case
    using o1 o2 o3 b n u by (simp add: uids_of_def)
qed

text \<open>
  C3. For dataloaders that keep their contract (each yields exactly as many batches as
  its length declares, and every \<open>X_dict\<close> has the dataloader's \<open>uid\<close> key), \<open>get_batches\<close>
  ends without an exception; it yields as many tuples as the declared lengths sum to;
  the batches \<open>(X_dict, Y_dict)\<close> of the tuples are the batches of the first dataloader
  in their order, then those of the second, and so on; each tuple carries the
  \<open>task_to_label_dict\<close>, \<open>data_name\<close> and \<open>split\<close> of the dataloader its batch comes from, and
  as first component the entry of its \<open>X_dict\<close> under that dataloader's \<open>uid\<close>.
\<close>

theorem get_batches_sequential:
  assumes "\<forall>d \<in> set dataloaders. length (batches d) = len d \<and>
             (\<forall>b \<in> set (batches d). uids_of (uid d) b \<noteq> None)"
  shows "\<exists>out. get_batches dataloaders = (out, None) \<and>
           length out = sum_list (map len dataloaders) \<and>
           map yielded_batch out = concat (map batches dataloaders) \<and>
           map yielded_meta out
             = concat (map (\<lambda>d. replicate (len d) (task_to_label_dict d, data_name d, split d))
                 dataloaders) \<and>
           map (\<lambda>y. Some (yielded_uids y)) out
             = concat (map (\<lambda>d. map (uids_of (uid d)) (batches d)) dataloaders)"
  using assms
proof (induction dataloaders)
  case Nil
  then show ?case by (simp add: get_batches_Nil)
next
  case (Cons d ds)
  from Cons.prems have len: "length (batches d) = len d"
    and uids: "\<forall>b \<in> set (batches d). uids_of (uid d) b \<noteq> None"
    by simp_all
  from get_batches_inner_complete [OF len uids, of "task_to_label_dict d" "data_name d" "split d"]
  obtain out where
    i: "get_batches_inner (task_to_label_dict d) (data_name d) (len d) (batches d) (split d) (uid d)
          = (out, None)"
    and i1: "map yielded_batch out = batches d"
    and i2: "map yielded_meta out
          = replicate (len d) (task_to_label_dict d, data_name d, split d)"
    and i3: "map (\<lambda>y. Some (yielded_uids y)) out = map (uids_of (uid d)) (batches d)"
    by blast
  from i1 len have i0: "length out = len d"
    by (metis length_map)
  have "\<forall>d \<in> set ds. length (batches d) = len d \<and>
             (\<forall>b \<in> set (batches d). uids_of (uid d) b \<noteq> None)"
    using Cons.prems by simp
  from Cons.IH [OF this] obtain out' where
    r: "get_batches ds = (out', None)"
    and r0: "length out' = sum_list (map len ds)"
    and r1: "map yielded_batch out' = concat (map batches ds)"
    and r2: "map yielded_meta out'
          = concat (map (\<lambda>d. replicate (len d) (task_to_label_dict d, data_name d, split d)) ds)"
    and r3: "map (\<lambda>y. Some (yielded_uids y)) out'
          = concat (map (\<lambda>d. map (uids_of (uid d)) (batches d)) ds)"
    by blast
  have "get_batches (d # ds) = (out @ out', None)"
    using i r by (simp add: get_batches_Cons)
  then show ?case
    using i0 i1 i2 i3 r0 r1 r2 r3 by simp
qed

theorem get_batches_sequential_witness:
  "length (batches source_a) = len source_a \<and>
   length (batches source_b) = len source_b \<and>
   map (uids_of (uid source_a)) (batches source_a) = [Some [0, 1], Some [2, 3], Some [4]] \<and>
   map (uids_of (uid source_b)) (batches source_b) = [Some [10, 11], Some [12]] \<and>
   map len [source_a, source_b] = [3, 2] \<and>
   get_batches [source_a, source_b] =
     ([([0, 1], [(''guid'', [0, 1]), (''tokens'', [7, 8])], [1, 0],
          [(''rte'', ''labels'')], ''RTE'', ''train''),
       ([2, 3], [(''guid'', [2, 3]), (''tokens'', [9, 9])], [0, 0],
          [(''rte'', ''labels'')], ''RTE'', ''train''),
       ([4], [(''guid'', [4]), (''tokens'', [5])], [1],
          [(''rte'', ''labels'')], ''RTE'', ''train''),
       ([10, 11], [(''idx'', [10, 11])], [2, 2], [(''cb'', ''label'')], ''CB'', ''valid''),
       ([12], [(''idx'', [12])], [0], [(''cb'', ''label'')], ''CB'', ''valid'')],
      None)"
proof -
  have wf: "\<forall>d \<in> set [source_a, source_b]. length (batches d) = len d \<and>
      (\<forall>b \<in> set (batches d). uids_of (uid d) b \<noteq> None)"
    by (simp add: source_a_def source_b_def uids_of_def)
  from get_batches_sequential [OF wf] obtain out where
    "get_batches [source_a, source_b] = (out, None)"
    "length out = sum_list (map len [source_a, source_b])"
    by blast
  moreover have "get_batches [source_a, source_b] =
     ([([0, 1], [(''guid'', [0, 1]), (''tokens'', [7, 8])], [1, 0],
          [(''rte'', ''labels'')], ''RTE'', ''train''),
       ([2, 3], [(''guid'', [2, 3]), (''tokens'', [9, 9])], [0, 0],
          [(''rte'', ''labels'')], ''RTE'', ''train''),
       ([4], [(''guid'', [4]), (''tokens'', [5])], [1],
          [(''rte'', ''labels'')], ''RTE'', ''train''),
       ([10, 11], [(''idx'', [10, 11])], [2, 2], [(''cb'', ''label'')], ''CB'', ''valid''),
       ([12], [(''idx'', [12])], [0], [(''cb'', ''label'')], ''CB'', ''valid'')],
      None)"
    by (simp add: get_batches_def source_a_def source_b_def numeral_3_eq_3 numeral_2_eq_2)
  ultimately show ?thesis
    by (simp add: source_a_def source_b_def uids_of_def)
qed

end
